theory Spec2Isabelle
  imports Main "HOL-Library.AList" "HOL-Library.Sublist" "HOL-Library.Multiset"
begin

section \<open>Python values and documents\<close>

text \<open>
  Documents of databroker are JSON-like Python dicts. A value is \<open>None\<close>, a string, a
  number, a boolean, a list or a dict with string keys. A dict is an association list in
  insertion order (the order Python iterates it in); \<open>d[k] = v\<close> is \<open>AList.update\<close>
  (in place when the key is there, appended otherwise), \<open>d.pop(k, None)\<close> is
  \<open>AList.delete\<close>. Values are compared by HOL equality, which is Python's \<open>==\<close> on
  \<open>None\<close> and on strings (the uids and names of the document model).
\<close>

datatype pyval =
    PNone
  | PStr string
  | PNum int
  | PBool bool
  | PList "pyval list"
  | PDict "(string \<times> pyval) list"

type_synonym doc = "(string \<times> pyval) list"

text \<open>
  Python exceptions, with the data their messages carry. \<open>Raised\<close> is an exception that
  comes out of a function the caller passed in (the transform \<open>f\<close> of \<open>event_map\<close>).
\<close>

datatype vmsg =
    SliceStartMustBeNegative int
  | SliceStopMustBeLE0 int
  | SliceStartNone
  | SliceStepZero
  | NoRunForScanId int
  | NoRunForKey string
  | KeyMatchesRuns string nat
  | UnsupportedKey

datatype rmsg = DescriptorBeforeRunStart | EventBeforeRunStart | RunStopBeforeRunStart

datatype exn =
    ValueError vmsg
  | IndexError nat
  | KeyError string
  | TypeError
  | AttributeError
  | NameError string
  | RuntimeError rmsg
  | Raised string

text \<open>\<open>d[k]\<close> on a dict raises \<open>KeyError\<close> when the key is missing.\<close>

definition getitem :: "doc \<Rightarrow> string \<Rightarrow> exn + pyval" where
  "getitem d k = (case map_of d k of None \<Rightarrow> Inl (KeyError k) | Some v \<Rightarrow> Inr v)"

text \<open>\<open>d.get(k)\<close> gives \<open>None\<close> when the key is missing.\<close>

definition dict_get :: "doc \<Rightarrow> string \<Rightarrow> pyval" where
  "dict_get d k = (case map_of d k of None \<Rightarrow> PNone | Some v \<Rightarrow> v)"

text \<open>
  \<open>v[k]\<close> for a string key on any value: a dict looks the key up; a list or a string
  takes integer indices only and \<open>None\<close>, numbers and booleans are not subscriptable
  (\<open>TypeError\<close>).
\<close>

definition subscript :: "pyval \<Rightarrow> string \<Rightarrow> exn + pyval" where
  "subscript v k = (case v of PDict d \<Rightarrow> getitem d k | _ \<Rightarrow> Inl TypeError)"

text \<open>
  \<^verbatim>\<open>
  def doc_or_uid_to_uid(doc_or_uid):
      if not isinstance(doc_or_uid, six.string_types):
          doc_or_uid = doc_or_uid['uid']
      return doc_or_uid
  \<close>
\<close>

definition doc_or_uid_to_uid :: "pyval \<Rightarrow> exn + pyval" where
  "doc_or_uid_to_uid doc_or_uid =
     (case doc_or_uid of
        PStr s \<Rightarrow> Inr (PStr s)
      | _ \<Rightarrow> subscript doc_or_uid ''uid'')"

section \<open>The metadata store and Headers\<close>

text \<open>
  Modelled from the spec: the metadata store (\<open>mds\<close>) and \<open>Header.from_run_start\<close> are
  collaborators outside \<open>broker.py\<close>. The store holds the Start documents of its runs,
  most recently created first, with the Descriptors and the Stop of each run.
  \<open>find_last(n)\<close> gives the \<open>n\<close> most recent Starts, most recent first (spec section 6);
  \<open>find_run_starts\<close> gives the Starts that match a query, most recent first. A Header is
  the aggregate of one run's Start, its Descriptors and its Stop (spec section 3).
\<close>

record mds =
  run_starts :: "doc list"
  descriptors_by_start :: "doc \<Rightarrow> doc list"
  stop_by_start :: "doc \<Rightarrow> doc"

record header =
  start :: doc
  descriptors :: "doc list"
  stop :: doc

definition find_last :: "mds \<Rightarrow> nat \<Rightarrow> doc list" where
  "find_last m n = take n (run_starts m)"

definition from_run_start :: "mds \<Rightarrow> doc \<Rightarrow> header" where
  "from_run_start m rs =
     \<lparr>start = rs, descriptors = descriptors_by_start m rs, stop = stop_by_start m rs\<rparr>"

text \<open>
  Modelled from the spec: the three queries \<open>search\<close> sends to \<open>find_run_starts\<close>:
  \<open>scan_id=key\<close>, \<open>uid=key\<close> and \<open>uid={'$regex': key + '.*'}\<close>. The query engine is
  not part of \<open>broker.py\<close>; the spec (section 4.1) reads the last one as a prefix match
  of the key against every identifier.
\<close>

datatype query = ScanId int | UidIs string | UidRegex string

definition find_run_starts :: "mds \<Rightarrow> query \<Rightarrow> doc list" where
  "find_run_starts m q =
     (case q of
        ScanId n \<Rightarrow> filter (\<lambda>rs. dict_get rs ''scan_id'' = PNum n) (run_starts m)
      | UidIs u \<Rightarrow> filter (\<lambda>rs. dict_get rs ''uid'' = PStr u) (run_starts m)
      | UidRegex p \<Rightarrow>
          filter (\<lambda>rs. case dict_get rs ''uid'' of
                          PStr u \<Rightarrow> 2 \<le> length p \<and> drop (length p - 2) p = ''.*''
                                      \<and> prefix (take (length p - 2) p) u
                        | _ \<Rightarrow> False) (run_starts m))"

section \<open>The Run Locator: \<open>search\<close>\<close>

text \<open>
  Python's \<open>xs[start::step]\<close> (the slice has no stop). The step defaults to 1 and must
  not be 0; with a positive step the slice runs from \<open>start\<close> (clipped to the list) to
  the end, with a negative step from \<open>start\<close> (clipped to the last index) back to the
  first element. A negative \<open>start\<close> counts from the end.
\<close>

fun take_every :: "nat \<Rightarrow> 'a list \<Rightarrow> 'a list" where
  "take_every k [] = []"
| "take_every k (x # xs) = x # take_every k (drop (k - 1) xs)"

definition py_slice_from :: "'a list \<Rightarrow> int option \<Rightarrow> int option \<Rightarrow> exn + 'a list" where
  "py_slice_from xs from_ix step_ix =
     (let n = int (length xs);
          st = (case step_ix of None \<Rightarrow> 1 | Some s \<Rightarrow> s)
      in if st = 0 then Inl (ValueError SliceStepZero)
         else if 0 < st then
           (let lo = (case from_ix of
                        None \<Rightarrow> 0
                      | Some a \<Rightarrow> if a < 0 then max (a + n) 0 else min a n)
            in Inr (take_every (nat st) (drop (nat lo) xs)))
         else
           (let hi = (case from_ix of
                        None \<Rightarrow> n - 1
                      | Some a \<Rightarrow> if a < 0 then max (a + n) (- 1) else min a (n - 1))
            in Inr (take_every (nat (- st)) (rev (take (nat (hi + 1)) xs)))))"

text \<open>
  The \<open>slice\<close> case of \<open>search\<close> (lines 180 to 204). The key is
  \<open>slice(start, stop, step)\<close>, each part an integer or \<open>None\<close>.
\<close>

definition search_slice ::
  "int option \<Rightarrow> int option \<Rightarrow> int option \<Rightarrow> mds \<Rightarrow> exn + header list" where
  "search_slice key_start key_stop key_step m =
     (if key_start \<noteq> None \<and> the key_start > - 1
      then Inl (ValueError (SliceStartMustBeNegative (the key_start)))
      else if key_stop \<noteq> None \<and> the key_stop > 0
      then Inl (ValueError (SliceStopMustBeLE0 (the key_stop)))
      else
        (let nstop = (case key_stop of Some s \<Rightarrow> Some (- s) | None \<Rightarrow> None)
         in case key_start of
              None \<Rightarrow> Inl (ValueError SliceStartNone)
            | Some s \<Rightarrow>
                (let nstart = - s
                 in case py_slice_from (find_last m (nat nstart)) nstop key_step of
                      Inl e \<Rightarrow> Inl e
                    | Inr result \<Rightarrow> Inr (map (from_run_start m) result))))"

text \<open>
  The integer case (lines 207 to 229). \<open>next_n\<close> is the loop
  \<open>for i in range(-key): result = next(gen)\<close>: it pulls from the generator, and when the
  generator is exhausted at round \<open>i\<close> it raises \<open>IndexError\<close> with \<open>i\<close> in the message.
\<close>

fun next_n :: "nat \<Rightarrow> nat \<Rightarrow> doc list \<Rightarrow> doc option \<Rightarrow> exn + doc option" where
  "next_n i 0 gen result = Inr result"
| "next_n i (Suc k) gen result =
     (case gen of
        [] \<Rightarrow> Inl (IndexError i)
      | r # gen' \<Rightarrow> next_n (Suc i) k gen' (Some r))"

definition search_int :: "int \<Rightarrow> mds \<Rightarrow> exn + header" where
  "search_int key m =
     (if key > - 1 then
        (case find_run_starts m (ScanId key) of
           [] \<Rightarrow> Inl (ValueError (NoRunForScanId key))
         | result # _ \<Rightarrow> Inr (from_run_start m result))
      else
        (case next_n 0 (nat (- key)) (find_last m (nat (- key))) None of
           Inl e \<Rightarrow> Inl e
         | Inr None \<Rightarrow> Inl (NameError ''result'')
         | Inr (Some result) \<Rightarrow> Inr (from_run_start m result)))"

text \<open>The string case (lines 232 to 258).\<close>

definition search_str :: "string \<Rightarrow> mds \<Rightarrow> exn + header" where
  "search_str key m =
     (let results = (if length key = 36 then find_run_starts m (UidIs key) else []);
          results = (if results = [] then find_run_starts m (UidRegex (key @ ''.*''))
                     else results)
      in if results = [] then Inl (ValueError (NoRunForKey key))
         else if length results > 1 then Inl (ValueError (KeyMatchesRuns key (length results)))
         else Inr (from_run_start m (hd results)))"

text \<open>
  The dispatch on the key's type: an integer, a slice, a string, a collection (resolved
  element by element, in order) or anything else (the default, which raises).
\<close>

datatype key = KInt int | KSlice "int option" "int option" "int option" | KStr string
  | KSeq "key list" | KOther

datatype found = One header | Many "found list"

fun search :: "key \<Rightarrow> mds \<Rightarrow> exn + found"
  and search_all :: "key list \<Rightarrow> mds \<Rightarrow> exn + found list" where
  "search (KInt n) m = map_sum id One (search_int n m)"
| "search (KSlice a b c) m = map_sum id (\<lambda>hs. Many (map One hs)) (search_slice a b c m)"
| "search (KStr s) m = map_sum id One (search_str s m)"
| "search (KSeq ks) m = map_sum id Many (search_all ks m)"
| "search KOther m = Inl (ValueError UnsupportedKey)"
| "search_all [] m = Inr []"
| "search_all (k # ks) m =
     (case search k m of
        Inl e \<Rightarrow> Inl e
      | Inr h \<Rightarrow> (case search_all ks m of Inl e \<Rightarrow> Inl e | Inr hs \<Rightarrow> Inr (h # hs)))"

text \<open>
  The spec's words for the matches of a string key: an exact match is a run whose uid is
  the key, a prefix match a run whose uid starts with the key.
\<close>

definition uid_is :: "string \<Rightarrow> doc \<Rightarrow> bool" where
  "uid_is key rs = (dict_get rs ''uid'' = PStr key)"

definition uid_has_prefix :: "string \<Rightarrow> doc \<Rightarrow> bool" where
  "uid_has_prefix key rs = (case dict_get rs ''uid'' of PStr u \<Rightarrow> prefix key u | _ \<Rightarrow> False)"

text \<open>A store of three runs, created in the order a, b, c, and the Header of such a run.\<close>

definition mds3 :: mds where
  "mds3 = \<lparr>run_starts = [[(''uid'', PStr ''c'')], [(''uid'', PStr ''b'')], [(''uid'', PStr ''a'')]],
           descriptors_by_start = (\<lambda>_. []), stop_by_start = (\<lambda>_. [])\<rparr>"

definition hdr :: "string \<Rightarrow> header" where
  "hdr u = \<lparr>start = [(''uid'', PStr u)], descriptors = [], stop = []\<rparr>"

section \<open>The Stream Map Operator: \<open>event_map\<close>\<close>

text \<open>
  \<open>str(uuid.uuid4())\<close> and \<open>time.time()\<close> read the outside world. The environment gives
  the result of the n-th call of each; the state of the generator counts the calls.
\<close>

record env =
  uuid4 :: "nat \<Rightarrow> string"
  clock :: "nat \<Rightarrow> pyval"

text \<open>
  The local variables of \<open>inner\<close>. \<open>run_start_uid\<close> and \<open>descriptor_uid\<close> start as
  \<open>None\<close>; \<open>new_data_keys\<close> and \<open>new_descriptor_uid\<close> are unbound (here \<open>None\<close>) until the
  descriptor branch assigns them, and reading an unbound local raises \<open>NameError\<close>.
\<close>

record em_state =
  run_start_uid :: "string option"
  descriptor_uid :: pyval
  new_data_keys :: "doc option"
  new_descriptor_uid :: "string option"
  nuuid :: nat
  ntime :: nat

definition em_init :: em_state where
  "em_init = \<lparr>run_start_uid = None, descriptor_uid = PNone, new_data_keys = None,
              new_descriptor_uid = None, nuuid = 0, ntime = 0\<rparr>"

text \<open>
  \<open>dict(v)\<close> copies a mapping. The fields it is applied to (\<open>data_keys\<close>, \<open>data\<close>) are
  mappings in every document of the model; on another value the call is rendered as
  \<open>TypeError\<close>.
\<close>

definition py_dict :: "pyval \<Rightarrow> exn + doc" where
  "py_dict v = (case v of PDict d \<Rightarrow> Inr d | _ \<Rightarrow> Inl TypeError)"

text \<open>
  \<^verbatim>\<open>
  for k, v in new_data_keys.items():
      new_data_keys[k].update(v)
  \<close>
  The loop runs over \<open>new_data_keys\<close> itself, so \<open>v\<close> is the object \<open>new_data_keys[k]\<close>:
  each schema is updated with itself, which leaves a dict as it is; a value that is not a
  dict has no \<open>update\<close> (\<open>AttributeError\<close>). The \<open>data_keys\<close> argument of \<open>event_map\<close> is
  not read here, nor anywhere else in the function.
\<close>

definition update_with_self :: "pyval \<Rightarrow> exn + pyval" where
  "update_with_self v = (case v of PDict d \<Rightarrow> Inr (PDict d) | _ \<Rightarrow> Inl AttributeError)"

fun update_data_keys :: "doc \<Rightarrow> exn + doc" where
  "update_data_keys [] = Inr []"
| "update_data_keys ((k, v) # kvs) =
     (case update_with_self v of
        Inl e \<Rightarrow> Inl e
      | Inr v' \<Rightarrow>
          (case update_data_keys kvs of Inl e \<Rightarrow> Inl e | Inr r \<Rightarrow> Inr ((k, v') # r)))"

text \<open>
  \<^verbatim>\<open>
  for data_key in new_data_keys:
      value = doc['data'][data_key]
      new_event['data'][data_key] = f(value)
  \<close>
  \<open>data\<close> is \<open>doc['data']\<close>, \<open>nd\<close> the copy \<open>new_event['data']\<close>. The transform \<open>f\<close>
  returns a value or raises (\<open>Inl\<close>, with what identifies its exception).
\<close>

fun apply_f :: "(pyval \<Rightarrow> string + pyval) \<Rightarrow> doc \<Rightarrow> string list \<Rightarrow> doc \<Rightarrow> exn + doc" where
  "apply_f f data [] nd = Inr nd"
| "apply_f f data (data_key # ks) nd =
     (case getitem data data_key of
        Inl e \<Rightarrow> Inl e
      | Inr v \<Rightarrow>
          (case f v of
             Inl e \<Rightarrow> Inl (Raised e)
           | Inr w \<Rightarrow> apply_f f data ks (AList.update data_key w nd)))"

text \<open>
  The body of the \<open>try\<close> in the event branch, up to the \<open>yield\<close>: the new Event, or the
  exception raised on the way. \<open>uuid4\<close> is called once, right after \<open>new_event['data']\<close>
  was copied.
\<close>

definition try_event ::
  "env \<Rightarrow> (pyval \<Rightarrow> string + pyval) \<Rightarrow> em_state \<Rightarrow> doc \<Rightarrow> exn + doc" where
  "try_event E f st d =
     (case getitem d ''data'' of
        Inl e \<Rightarrow> Inl e
      | Inr dv \<Rightarrow>
          (case py_dict dv of
             Inl e \<Rightarrow> Inl e
           | Inr data \<Rightarrow>
               (case new_descriptor_uid st of
                  None \<Rightarrow> Inl (NameError ''new_descriptor_uid'')
                | Some ndu \<Rightarrow>
                    (case new_data_keys st of
                       None \<Rightarrow> Inl (NameError ''new_data_keys'')
                     | Some ndk \<Rightarrow>
                         (case apply_f f data (map fst ndk) data of
                            Inl e \<Rightarrow> Inl e
                          | Inr nd \<Rightarrow>
                              Inr (AList.update ''descriptor'' (PStr ndu)
                                    (AList.update ''uid'' (PStr (uuid4 E (nuuid st)))
                                      (AList.update ''data'' (PDict nd) d))))))))"

text \<open>Whether the \<open>try\<close> body got as far as its call of \<open>uuid4\<close>.\<close>

definition try_event_uuids :: "doc \<Rightarrow> nat" where
  "try_event_uuids d =
     (case getitem d ''data'' of
        Inl e \<Rightarrow> 0
      | Inr dv \<Rightarrow> (case py_dict dv of Inl e \<Rightarrow> 0 | Inr data \<Rightarrow> 1))"

definition new_stop :: "env \<Rightarrow> nat \<Rightarrow> nat \<Rightarrow> string \<Rightarrow> string \<Rightarrow> doc" where
  "new_stop E nu nt rsu status =
     [(''uid'', PStr (uuid4 E nu)), (''time'', clock E nt),
      (''run_start'', PStr rsu), (''exit_status'', PStr status)]"

text \<open>
  One round of \<open>for name, doc in stream\<close> (lines 1007 to 1064): the documents it yields,
  and the exception that ends the generator or the state for the next round. The
  arguments are those of \<open>event_map(stream_name, data_keys, provenance)(f)\<close>.
\<close>

definition inner_step ::
  "env \<Rightarrow> string \<Rightarrow> doc \<Rightarrow> pyval \<Rightarrow> (pyval \<Rightarrow> string + pyval) \<Rightarrow> em_state \<Rightarrow> string \<times> doc
   \<Rightarrow> (string \<times> doc) list \<times> (exn + em_state)" where
  "inner_step E stream_name data_keys provenance f st nd =
     (let name = fst nd; d = snd nd in
      if name = ''start'' then
        (let rsu = uuid4 E (nuuid st) in
         case getitem d ''uid'' of
           Inl e \<Rightarrow> ([], Inl e)
         | Inr u \<Rightarrow>
             ([(''start'', [(''uid'', PStr rsu), (''time'', clock E (ntime st)),
                            (''parents'', PList [u]), (''provenance'', provenance)])],
              Inr (st\<lparr>run_start_uid := Some rsu, nuuid := nuuid st + 1, ntime := ntime st + 1\<rparr>)))
      else if name = ''descriptor'' \<and> dict_get d ''name'' = PStr stream_name then
        (case run_start_uid st of
           None \<Rightarrow> ([], Inl (RuntimeError DescriptorBeforeRunStart))
         | Some rsu \<Rightarrow>
             (case doc_or_uid_to_uid (PDict d) of
                Inl e \<Rightarrow> ([], Inl e)
              | Inr du \<Rightarrow>
                  (case getitem d ''data_keys'' of
                     Inl e \<Rightarrow> ([], Inl e)
                   | Inr dkv \<Rightarrow>
                       (case py_dict dkv of
                          Inl e \<Rightarrow> ([], Inl e)
                        | Inr dk \<Rightarrow>
                            (case update_data_keys dk of
                               Inl e \<Rightarrow> ([], Inl e)
                             | Inr ndk \<Rightarrow>
                                 (let ndu = uuid4 E (nuuid st) in
                                  ([(''descriptor'',
                                     [(''uid'', PStr ndu), (''time'', clock E (ntime st)),
                                      (''run_start'', PStr rsu), (''data_keys'', PDict ndk),
                                      (''name'', PStr stream_name)])],
                                   Inr (st\<lparr>descriptor_uid := du, new_data_keys := Some ndk,
                                           new_descriptor_uid := Some ndu,
                                           nuuid := nuuid st + 1, ntime := ntime st + 1\<rparr>))))))))
      else if name = ''event'' then
        (case getitem d ''descriptor'' of
           Inl e \<Rightarrow> ([], Inl e)
         | Inr dv \<Rightarrow>
             (case doc_or_uid_to_uid dv of
                Inl e \<Rightarrow> ([], Inl e)
              | Inr du \<Rightarrow>
                  if du = descriptor_uid st then
                    (case run_start_uid st of
                       None \<Rightarrow> ([], Inl (RuntimeError EventBeforeRunStart))
                     | Some rsu \<Rightarrow>
                         (case try_event E f st d of
                            Inr new_event \<Rightarrow>
                              ([(''event'', new_event)], Inr (st\<lparr>nuuid := nuuid st + 1\<rparr>))
                          | Inl e \<Rightarrow>
                              ([(''stop'', new_stop E (nuuid st + try_event_uuids d)
                                             (ntime st) rsu ''failure'')],
                               Inl e)))
                  else ([], Inr st)))
      else if name = ''stop'' then
        (case run_start_uid st of
           None \<Rightarrow> ([], Inl (RuntimeError RunStopBeforeRunStart))
         | Some rsu \<Rightarrow>
             ([(''stop'', new_stop E (nuuid st) (ntime st) rsu ''success'')],
              Inr (st\<lparr>descriptor_uid := PNone, run_start_uid := None,
                      nuuid := nuuid st + 1, ntime := ntime st + 1\<rparr>)))
      else ([], Inr st))"

text \<open>
  The generator \<open>inner(stream)\<close> run to its end from a state: everything it yields, and
  the exception that ended it or the state it finished in.
\<close>

fun inner_loop ::
  "env \<Rightarrow> string \<Rightarrow> doc \<Rightarrow> pyval \<Rightarrow> (pyval \<Rightarrow> string + pyval) \<Rightarrow> em_state \<Rightarrow> (string \<times> doc) list
   \<Rightarrow> (string \<times> doc) list \<times> (exn + em_state)" where
  "inner_loop E stream_name data_keys provenance f st [] = ([], Inr st)"
| "inner_loop E stream_name data_keys provenance f st (nd # stream) =
     (case inner_step E stream_name data_keys provenance f st nd of
        (out, Inl e) \<Rightarrow> (out, Inl e)
      | (out, Inr st') \<Rightarrow>
          (case inner_loop E stream_name data_keys provenance f st' stream of
             (out', r) \<Rightarrow> (out @ out', r)))"

text \<open>
  \<open>event_map(stream_name, data_keys, provenance)(f)(stream)\<close>, drained: the documents
  yielded, and the exception raised, if any.
\<close>

definition event_map ::
  "env \<Rightarrow> string \<Rightarrow> doc \<Rightarrow> pyval \<Rightarrow> (pyval \<Rightarrow> string + pyval) \<Rightarrow> (string \<times> doc) list
   \<Rightarrow> (string \<times> doc) list \<times> exn option" where
  "event_map E stream_name data_keys provenance f stream =
     (case inner_loop E stream_name data_keys provenance f em_init stream of
        (out, Inl e) \<Rightarrow> (out, Some e)
      | (out, Inr st) \<Rightarrow> (out, None))"

text \<open>
  Referential integrity of a stream of emitted documents, read from left to right with
  the uid of the last Start (\<open>s\<close>) and of the last Descriptor (\<open>d\<close>) seen so far: a
  Descriptor and a Stop name the last Start in \<open>run_start\<close>, an Event names the last
  Descriptor in \<open>descriptor\<close>.
\<close>

fun refs_ok :: "pyval option \<Rightarrow> pyval option \<Rightarrow> (string \<times> doc) list \<Rightarrow> bool" where
  "refs_ok s d [] = True"
| "refs_ok s d (nd # out) =
     (if fst nd = ''start'' then refs_ok (map_of (snd nd) ''uid'') d out
      else if fst nd = ''descriptor'' then
        s \<noteq> None \<and> map_of (snd nd) ''run_start'' = s \<and> refs_ok s (map_of (snd nd) ''uid'') out
      else if fst nd = ''event'' then
        d \<noteq> None \<and> map_of (snd nd) ''descriptor'' = d \<and> refs_ok s d out
      else if fst nd = ''stop'' then
        s \<noteq> None \<and> map_of (snd nd) ''run_start'' = s \<and> refs_ok s d out
      else refs_ok s d out)"

text \<open>An Event whose \<open>descriptor\<close> field gives a uid, and one that is not \<open>None\<close>.\<close>

definition event_has_descriptor_uid :: "doc \<Rightarrow> bool" where
  "event_has_descriptor_uid d =
     (case getitem d ''descriptor'' of
        Inl e \<Rightarrow> False
      | Inr dv \<Rightarrow> (case doc_or_uid_to_uid dv of Inl e \<Rightarrow> False | Inr u \<Rightarrow> u \<noteq> PNone))"

text \<open>
  The spec's words for the \<open>data_keys\<close> of the emitted Descriptor: each configured
  schema-update fragment merged into the schema of the field it is configured for.
\<close>

definition spec_data_keys :: "doc \<Rightarrow> doc \<Rightarrow> doc" where
  "spec_data_keys cfg dk =
     fold (\<lambda>kf acc. case (map_of acc (fst kf), snd kf) of
                      (Some (PDict schema), PDict fragment) \<Rightarrow>
                        AList.update (fst kf)
                          (PDict (fold (\<lambda>ab. AList.update (fst ab) (snd ab)) fragment schema)) acc
                    | _ \<Rightarrow> acc) cfg dk"

text \<open>
  The spec's words for the data of an emitted Event: each field of \<open>ks\<close> replaced by the
  transform of its value in the source Event.
\<close>

definition map_fields :: "(pyval \<Rightarrow> pyval) \<Rightarrow> string list \<Rightarrow> doc \<Rightarrow> doc" where
  "map_fields g ks data = fold (\<lambda>k. AList.update k (g (dict_get data k))) ks data"

text \<open>Example inputs: an environment, a Start, a Descriptor of the stream \<open>primary\<close>
  with one field \<open>x\<close>, and a configuration that asks for a new \<open>shape\<close> of \<open>x\<close>.\<close>

definition env0 :: env where
  "env0 = \<lparr>uuid4 = (\<lambda>n. ''uuid-'' @ replicate n CHR ''i''), clock = (\<lambda>n. PNum (int n))\<rparr>"

definition start1 :: doc where
  "start1 = [(''uid'', PStr ''s1'')]"

definition dk1 :: doc where
  "dk1 = [(''x'', PDict [(''dtype'', PStr ''number'')])]"

definition desc1 :: doc where
  "desc1 = [(''uid'', PStr ''d1''), (''name'', PStr ''primary''), (''data_keys'', PDict dk1)]"

definition cfg_shape :: doc where
  "cfg_shape = [(''x'', PDict [(''shape'', PList [PNum 10, PNum 10])])]"

definition event1 :: "int \<Rightarrow> doc" where
  "event1 n = [(''uid'', PStr ''e''), (''descriptor'', PStr ''d1''), (''data'', PDict [(''x'', PNum n)])]"

section \<open>The Run Replicator: \<open>Broker.export\<close>\<close>

text \<open>
  Modelled from the spec: the blob store (\<open>fs\<close>) and its records are collaborators
  outside \<open>broker.py\<close>. A Resource has an id, a spec, a location and constructor
  arguments; a Datum has a reference id and per-value arguments (spec section 3).
\<close>

record resource =
  res_uid :: string
  res_spec :: pyval
  resource_path :: pyval
  resource_kwargs :: pyval

record datum =
  datum_id :: pyval
  datum_kwargs :: pyval

text \<open>
  What \<open>export\<close> calls on the source Broker \<open>self\<close>, taken as functions that return:
  \<open>get_events(header, fields=...)\<close> (the events \<open>core.get_events\<close> yields; \<open>fields\<close> is
  \<open>None\<close> or a set of names), and, on \<open>self.fs\<close>, \<open>copy_files(uid, new_root, **copy_kwargs)\<close>
  for the \<open>new_root\<close> and \<open>copy_kwargs\<close> of the call, \<open>resource_given_uid\<close>,
  \<open>resource_given_eid\<close> and \<open>datum_gen_given_resource\<close>.
\<close>

record source =
  get_events :: "header \<Rightarrow> string list option \<Rightarrow> doc list"
  copy_files :: "string \<Rightarrow> (string \<times> string) list"
  resource_given_uid :: "string \<Rightarrow> resource"
  resource_given_eid :: "pyval \<Rightarrow> resource"
  datum_gen_given_resource :: "string \<Rightarrow> datum list"

text \<open>
  The destination Broker \<open>db\<close>: the documents handed to \<open>db.mds.insert_run_start\<close>,
  \<open>insert_descriptor\<close>, \<open>insert_event\<close> and \<open>insert_run_stop\<close>, in the order of the calls,
  each with its kind; the Resources \<open>db.fs.insert_resource\<close> made and the Datums handed to
  \<open>db.fs.insert_datum\<close>. \<open>insert_resource\<close> gives the new Resource its own id:
  \<open>fresh_uid n\<close> for the n-th Resource of the destination.
\<close>

record destination =
  mds_inserted :: "(string \<times> doc) list"
  fs_resources :: "resource list"
  fs_datums :: "(resource \<times> pyval \<times> pyval) list"
  fresh_uid :: "nat \<Rightarrow> string"

text \<open>
  \<open>k in v\<close> for a string \<open>k\<close>: a key of a dict, an element of a list, a substring of a
  string; other values are not containers (\<open>TypeError\<close>).
\<close>

definition py_in :: "string \<Rightarrow> pyval \<Rightarrow> exn + bool" where
  "py_in k v =
     (case v of
        PDict d \<Rightarrow> Inr (k \<in> set (map fst d))
      | PList xs \<Rightarrow> Inr (PStr k \<in> set xs)
      | PStr s \<Rightarrow> Inr (sublist k s)
      | _ \<Rightarrow> Inl TypeError)"

text \<open>\<open>six.iteritems(v)\<close>: the items of a dict; other values have no \<open>items\<close>.\<close>

definition iteritems :: "pyval \<Rightarrow> exn + doc" where
  "iteritems v = (case v of PDict d \<Rightarrow> Inr d | _ \<Rightarrow> Inl AttributeError)"

text \<open>
  \<open>get_resource_uids\<close> (lines 636 to 664). A Python set is a list without duplicates here,
  in the order of first insertion (Python iterates a set in an order of its own).
\<close>

definition set_add :: "'a \<Rightarrow> 'a list \<Rightarrow> 'a list" where
  "set_add x xs = (if x \<in> set xs then xs else xs @ [x])"

fun external_in_items :: "doc \<Rightarrow> string list \<Rightarrow> exn + string list" where
  "external_in_items [] external_keys = Inr external_keys"
| "external_in_items ((k, v) # kvs) external_keys =
     (case py_in ''external'' v of
        Inl e \<Rightarrow> Inl e
      | Inr b \<Rightarrow> external_in_items kvs (if b then set_add k external_keys else external_keys))"

fun external_keys_loop :: "doc list \<Rightarrow> string list \<Rightarrow> exn + string list" where
  "external_keys_loop [] external_keys = Inr external_keys"
| "external_keys_loop (d # ds) external_keys =
     (case getitem d ''data_keys'' of
        Inl e \<Rightarrow> Inl e
      | Inr dkv \<Rightarrow>
          (case iteritems dkv of
             Inl e \<Rightarrow> Inl e
           | Inr items \<Rightarrow>
               (case external_in_items items external_keys of
                  Inl e \<Rightarrow> Inl e
                | Inr ks \<Rightarrow> external_keys_loop ds ks)))"

fun resources_in_items :: "source \<Rightarrow> string list \<Rightarrow> doc \<Rightarrow> string list \<Rightarrow> string list" where
  "resources_in_items S external_keys [] resources = resources"
| "resources_in_items S external_keys ((k, v) # kvs) resources =
     resources_in_items S external_keys kvs
       (if k \<in> set external_keys then set_add (res_uid (resource_given_eid S v)) resources
        else resources)"

fun resources_loop :: "source \<Rightarrow> string list \<Rightarrow> doc list \<Rightarrow> string list \<Rightarrow> exn + string list" where
  "resources_loop S external_keys [] resources = Inr resources"
| "resources_loop S external_keys (ev # evs) resources =
     (case getitem ev ''data'' of
        Inl e \<Rightarrow> Inl e
      | Inr dv \<Rightarrow>
          (case iteritems dv of
             Inl e \<Rightarrow> Inl e
           | Inr items \<Rightarrow>
               resources_loop S external_keys evs
                 (resources_in_items S external_keys items resources)))"

definition get_resource_uids :: "source \<Rightarrow> header \<Rightarrow> exn + string list" where
  "get_resource_uids S h =
     (case external_keys_loop (descriptors h) [] of
        Inl e \<Rightarrow> Inl e
      | Inr external_keys \<Rightarrow>
          resources_loop S external_keys (get_events S h (Some external_keys)) [])"

text \<open>
  The loop over \<open>header['descriptors']\<close> (lines 787 to 794). \<open>events\<close> is the generator
  \<open>self.get_events(header)\<close>, made once before the loop: the inner \<open>for event in events\<close>
  of the first Descriptor drains it, and for the Descriptors after it nothing is left.
  Each Event is inserted without its \<open>filled\<close> key.
\<close>

fun insert_descriptors :: "doc list \<Rightarrow> doc list \<Rightarrow> (string \<times> doc) list \<Rightarrow> (string \<times> doc) list" where
  "insert_descriptors [] events inserted = inserted"
| "insert_descriptors (descriptor # ds) events inserted =
     insert_descriptors ds []
       (inserted @ [(''descriptor'', descriptor)]
          @ map (\<lambda>event. (''event'', AList.delete ''filled'' event)) events)"

text \<open>The loop over \<open>res_uids\<close> (lines 798 to 811), with the list \<open>file_pairs\<close>.\<close>

fun copy_resources ::
  "source \<Rightarrow> string list \<Rightarrow> destination \<times> (string \<times> string) list
   \<Rightarrow> destination \<times> (string \<times> string) list" where
  "copy_resources S [] acc = acc"
| "copy_resources S (u # us) acc =
     (let db = fst acc; file_pairs = snd acc;
          fps = copy_files S u;
          res = resource_given_uid S u;
          new_res = \<lparr>res_uid = fresh_uid db (length (fs_resources db)), res_spec = res_spec res,
                     resource_path = resource_path res, resource_kwargs = resource_kwargs res\<rparr>;
          datums = datum_gen_given_resource S u
      in copy_resources S us
           (db\<lparr>fs_resources := fs_resources db @ [new_res],
               fs_datums := fs_datums db
                 @ map (\<lambda>dm. (new_res, datum_id dm, datum_kwargs dm)) datums\<rparr>,
            file_pairs @ fps))"

text \<open>
  One round of \<open>for header in headers\<close> and the whole loop: the destination as the calls
  left it, and the exception that ended \<open>export\<close> or the list \<open>file_pairs\<close> so far.
\<close>

definition export_header ::
  "source \<Rightarrow> header \<Rightarrow> destination \<times> (string \<times> string) list
   \<Rightarrow> destination \<times> (exn + (string \<times> string) list)" where
  "export_header S h acc =
     (let db = fst acc; file_pairs = snd acc;
          ins = mds_inserted db @ [(''start'', start h)];
          ins = insert_descriptors (descriptors h) (get_events S h None) ins;
          ins = ins @ [(''stop'', stop h)];
          db = db\<lparr>mds_inserted := ins\<rparr>
      in case get_resource_uids S h of
           Inl e \<Rightarrow> (db, Inl e)
         | Inr res_uids \<Rightarrow>
             (case copy_resources S res_uids (db, file_pairs) of
                (db', fps) \<Rightarrow> (db', Inr fps)))"

fun export_loop ::
  "source \<Rightarrow> header list \<Rightarrow> destination \<times> (string \<times> string) list
   \<Rightarrow> destination \<times> (exn + (string \<times> string) list)" where
  "export_loop S [] acc = (fst acc, Inr (snd acc))"
| "export_loop S (h # hs) acc =
     (case export_header S h acc of
        (db, Inl e) \<Rightarrow> (db, Inl e)
      | (db, Inr fps) \<Rightarrow> export_loop S hs (db, fps))"

text \<open>
  \<open>export(headers, db)\<close> (lines 749 to 812). \<open>headers\<close> is one Header (it has \<open>items\<close>, and
  is wrapped in a list) or a list of Headers.
\<close>

datatype headers_arg = OneHeader header | Headers "header list"

definition export :: "source \<Rightarrow> headers_arg \<Rightarrow> destination \<Rightarrow> destination \<times> (exn + (string \<times> string) list)" where
  "export S headers db =
     (let hs = (case headers of OneHeader h \<Rightarrow> [h] | Headers hs \<Rightarrow> hs)
      in export_loop S hs (db, []))"

text \<open>
  The spec's words for what one Header contributes to the destination's metadata store:
  its Start, each of its Descriptors, each of its Events without \<open>filled\<close>, and its Stop.
\<close>

definition header_documents :: "source \<Rightarrow> header \<Rightarrow> (string \<times> doc) multiset" where
  "header_documents S h =
     {#(''start'', start h)#}
     + mset (map (\<lambda>d. (''descriptor'', d)) (descriptors h))
     + mset (map (\<lambda>event. (''event'', AList.delete ''filled'' event)) (get_events S h None))
     + {#(''stop'', stop h)#}"

section \<open>The External Store Interceptor: \<open>store_dec\<close>\<close>

text \<open>
  \<open>store_dec\<close> copies documents shallowly and then mutates the copy, so what it does
  depends on which dicts are shared. Here a dict is an object in a store, found by its
  address, and a value that is a dict is a reference to its object. \<open>dict(d)\<close> makes a new
  object with the entries of \<open>d\<close>: the nested dicts are shared with \<open>d\<close>. Every reference
  of a well-formed store is below the length of the store.
\<close>

datatype hval =
    HNone
  | HStr string
  | HNum int
  | HBool bool
  | HList "hval list"
  | HRef nat

type_synonym obj = "(string \<times> hval) list"
type_synonym heap = "obj list"

definition obj_at :: "heap \<Rightarrow> nat \<Rightarrow> obj" where
  "obj_at h a = (if a < length h then h ! a else [])"

text \<open>What a reader of the store sees of a value, the dicts followed to a given depth.\<close>

fun view :: "nat \<Rightarrow> heap \<Rightarrow> hval \<Rightarrow> pyval" where
  "view n h HNone = PNone"
| "view n h (HStr s) = PStr s"
| "view n h (HNum i) = PNum i"
| "view n h (HBool b) = PBool b"
| "view n h (HList xs) = PList (map (view n h) xs)"
| "view 0 h (HRef a) = PDict []"
| "view (Suc n) h (HRef a) = PDict (map (\<lambda>kv. (fst kv, view n h (snd kv))) (obj_at h a))"

text \<open>\<open>k in v\<close> and \<open>v[k]\<close> for a string \<open>k\<close>, as above, on values of the store.\<close>

definition h_in :: "string \<Rightarrow> heap \<Rightarrow> hval \<Rightarrow> exn + bool" where
  "h_in k h v =
     (case v of
        HRef r \<Rightarrow> Inr (k \<in> set (map fst (obj_at h r)))
      | HList xs \<Rightarrow> Inr (HStr k \<in> set xs)
      | HStr s \<Rightarrow> Inr (sublist k s)
      | _ \<Rightarrow> Inl TypeError)"

definition h_subscript :: "heap \<Rightarrow> hval \<Rightarrow> string \<Rightarrow> exn + hval" where
  "h_subscript h v k =
     (case v of
        HRef r \<Rightarrow> (case map_of (obj_at h r) k of None \<Rightarrow> Inl (KeyError k) | Some w \<Rightarrow> Inr w)
      | _ \<Rightarrow> Inl TypeError)"

text \<open>
  The configuration and the state of \<open>wrapped_f\<close>. \<open>external_writers\<close> is given by its
  keys; the writer of a data key counts its calls of \<open>write\<close>, and \<open>writer_write k n v\<close> is
  what the n-th call of the writer of \<open>k\<close> returns (or raises) for the value \<open>v\<close>. The
  local variable \<open>writers\<close> is unbound (\<open>None\<close>) until a Start is seen. \<open>mds_calls\<close> lists
  the calls of \<open>db.mds.insert(name, fs_doc)\<close>: the name, the address of \<open>fs_doc\<close> and the
  store at the time of the call.
\<close>

record sd_config =
  external_writers :: "string list"
  writer_write :: "string \<Rightarrow> nat \<Rightarrow> hval \<Rightarrow> exn + hval"

record sd_state =
  heap_of :: heap
  writers :: "(string \<times> nat) list option"
  mds_calls :: "(string \<times> nat \<times> heap) list"

text \<open>
  \<^verbatim>\<open>
  for data_name in external_writers.keys():
      if data_name in fs_doc['data_keys']:
          fs_doc['data_keys'][data_name].update(external='FILESTORE:')
  \<close>
  \<open>fs_doc\<close> is the object at \<open>fs\<close>. The update writes to the object the schema refers to.
\<close>

fun mark_external :: "string list \<Rightarrow> nat \<Rightarrow> heap \<Rightarrow> exn + heap" where
  "mark_external [] fs h = Inr h"
| "mark_external (data_name # ks) fs h =
     (case h_subscript h (HRef fs) ''data_keys'' of
        Inl e \<Rightarrow> Inl e
      | Inr dk \<Rightarrow>
          (case h_in data_name h dk of
             Inl e \<Rightarrow> Inl e
           | Inr b \<Rightarrow>
               if b then
                 (case h_subscript h dk data_name of
                    Inl e \<Rightarrow> Inl e
                  | Inr w \<Rightarrow>
                      (case w of
                         HRef r \<Rightarrow>
                           mark_external ks fs
                             (h[r := AList.update ''external'' (HStr ''FILESTORE:'') (obj_at h r)])
                       | _ \<Rightarrow> Inl AttributeError))
               else mark_external ks fs h))"

text \<open>
  \<^verbatim>\<open>
  for data_key, writer in writers.items():
      if data_key in fs_doc['data']:
          fs_uid = writer.write(fs_doc['data'][data_key])
          fs_doc['data'][data_key] = fs_uid
  \<close>
  \<open>fs_doc['data']\<close> is the fresh copy at \<open>nd\<close>; \<open>ws\<close> are the writers with their counts.
\<close>

fun write_external ::
  "sd_config \<Rightarrow> (string \<times> nat) list \<Rightarrow> nat \<Rightarrow> heap \<Rightarrow> (string \<times> nat) list
   \<Rightarrow> exn + heap \<times> (string \<times> nat) list" where
  "write_external C [] nd h ws = Inr (h, ws)"
| "write_external C ((data_key, n) # rest) nd h ws =
     (case map_of (obj_at h nd) data_key of
        None \<Rightarrow> write_external C rest nd h ws
      | Some v \<Rightarrow>
          (case writer_write C data_key n v of
             Inl e \<Rightarrow> Inl e
           | Inr fs_uid \<Rightarrow>
               write_external C rest nd (h[nd := AList.update data_key fs_uid (obj_at h nd)])
                 (AList.update data_key (Suc n) ws)))"

text \<open>
  One round of \<open>for name, doc in gen\<close> (lines 933 to 979), for the document at address
  \<open>doc\<close>: an exception, or the state at the \<open>yield\<close>. The pair yielded is \<open>(name, doc)\<close>
  itself, read in the store of that state.
\<close>

definition wrapped_step :: "sd_config \<Rightarrow> sd_state \<Rightarrow> string \<times> nat \<Rightarrow> exn + sd_state" where
  "wrapped_step C st nd =
     (let name = fst nd; doc = snd nd;
          h0 = heap_of st;
          fs = length h0;
          h1 = h0 @ [obj_at h0 doc];
          ws1 = (if name = ''start'' then Some (map (\<lambda>k. (k, 0)) (external_writers C))
                 else writers st);
          r = (if name = ''descriptor'' then
                 (case mark_external (external_writers C) fs h1 of
                    Inl e \<Rightarrow> Inl e
                  | Inr h2 \<Rightarrow> Inr (h2, ws1))
               else if name = ''event'' then
                 (case h_subscript h1 (HRef fs) ''data'' of
                    Inl e \<Rightarrow> Inl e
                  | Inr dv \<Rightarrow>
                      (case dv of
                         HRef r \<Rightarrow>
                           (let nd = length h1;
                                h2 = h1 @ [obj_at h1 r];
                                h3 = h2[fs := AList.update ''data'' (HRef nd) (obj_at h2 fs)]
                            in case ws1 of
                                 None \<Rightarrow> Inl (NameError ''writers'')
                               | Some ws \<Rightarrow>
                                   (case write_external C ws nd h3 ws of
                                      Inl e \<Rightarrow> Inl e
                                    | Inr (h4, ws') \<Rightarrow>
                                        (let filled = length h4;
                                             h5 = h4 @ [map (\<lambda>k. (k, HBool False))
                                                         (external_writers C)];
                                             h6 = h5[doc := AList.update ''filled'' (HRef filled)
                                                              (obj_at h5 doc)]
                                         in Inr (h6, Some ws'))))
                       | _ \<Rightarrow> Inl TypeError))
               else if name = ''stop'' then
                 (case ws1 of
                    None \<Rightarrow> Inl (NameError ''writers'')
                  | Some ws \<Rightarrow> Inr (h1, Some []))
               else Inr (h1, ws1))
      in case r of
           Inl e \<Rightarrow> Inl e
         | Inr (h, ws) \<Rightarrow>
             (let h' = h[fs := AList.delete ''_name'' (AList.delete ''filled'' (obj_at h fs))]
              in Inr \<lparr>heap_of = h', writers = ws,
                      mds_calls = mds_calls st @ [(name, fs, h')]\<rparr>))"

text \<open>
  The generator \<open>wrapped_f\<close> drained, over the documents \<open>gen\<close> yields (each by its
  address): for each \<open>yield\<close> the name, the address of the document and the store at that
  moment, and the exception that ended the generator or its last state.
\<close>

fun wrapped_loop ::
  "sd_config \<Rightarrow> sd_state \<Rightarrow> (string \<times> nat) list \<Rightarrow> (string \<times> nat \<times> heap) list \<times> (exn + sd_state)" where
  "wrapped_loop C st [] = ([], Inr st)"
| "wrapped_loop C st (nd # gen) =
     (case wrapped_step C st nd of
        Inl e \<Rightarrow> ([], Inl e)
      | Inr st' \<Rightarrow>
          (case wrapped_loop C st' gen of
             (out, r) \<Rightarrow> ((fst nd, snd nd, heap_of st') # out, r)))"

definition wrapped_f ::
  "sd_config \<Rightarrow> heap \<Rightarrow> (string \<times> nat) list \<Rightarrow> (string \<times> nat \<times> heap) list \<times> (exn + sd_state)" where
  "wrapped_f C h gen = wrapped_loop C \<lparr>heap_of = h, writers = None, mds_calls = []\<rparr> gen"

text \<open>
  An example: a store with a Descriptor (address 0) whose \<open>data_keys\<close> (address 1) hold
  the schema of \<open>img\<close> (address 2), and a Start (address 3); a configuration with a writer
  for \<open>img\<close>.
\<close>

definition heap1 :: heap where
  "heap1 =
     [[(''uid'', HStr ''d1''), (''name'', HStr ''primary''), (''data_keys'', HRef 1)],
      [(''img'', HRef 2)],
      [(''dtype'', HStr ''array'')],
      [(''uid'', HStr ''s1'')]]"

definition config_img :: sd_config where
  "config_img = \<lparr>external_writers = [''img''], writer_write = (\<lambda>k n v. Inr (HStr ''datum''))\<rparr>"

text \<open>
  Bookkeeping for the proofs: the uids of the last Start and the last Descriptor after a
  stream of emitted documents, and the two invariants of the generator's state.
\<close>

fun track :: "pyval option \<times> pyval option \<Rightarrow> (string \<times> doc) list \<Rightarrow> pyval option \<times> pyval option" where
  "track sd [] = sd"
| "track sd (nd # out) =
     (if fst nd = ''start'' then track (map_of (snd nd) ''uid'', snd sd) out
      else if fst nd = ''descriptor'' then track (fst sd, map_of (snd nd) ''uid'') out
      else track sd out)"

definition inv10 :: "em_state \<Rightarrow> pyval option \<Rightarrow> pyval option \<Rightarrow> bool" where
  "inv10 st s d =
     ((case run_start_uid st of None \<Rightarrow> True | Some r \<Rightarrow> s = Some (PStr r)) \<and>
      (case new_descriptor_uid st of None \<Rightarrow> True | Some u \<Rightarrow> d = Some (PStr u)))"

definition inv9 :: "em_state \<Rightarrow> bool" where
  "inv9 st = (case run_start_uid st of None \<Rightarrow> descriptor_uid st = PNone | Some r \<Rightarrow> True)"

text \<open>Two transforms: one that adds 100 to a number, and one that raises on the number 2.\<close>

definition add100 :: "pyval \<Rightarrow> pyval" where
  "add100 v = (case v of PNum n \<Rightarrow> PNum (n + 100) | _ \<Rightarrow> v)"

definition fail_on_2 :: "pyval \<Rightarrow> string + pyval" where
  "fail_on_2 v = (if v = PNum 2 then Inl ''boom'' else Inr (add100 v))"

text \<open>
  Example inputs for \<open>export\<close>: a Header with one Descriptor whose field \<open>img\<close> is stored
  externally and one Event, a source Broker and an empty destination.
\<close>

definition desc_img :: doc where
  "desc_img = [(''uid'', PStr ''d1''), (''name'', PStr ''primary''),
               (''data_keys'', PDict [(''img'', PDict [(''external'', PStr ''FILESTORE:'')])])]"

definition event_img :: doc where
  "event_img = [(''uid'', PStr ''e1''), (''descriptor'', PStr ''d1''),
                (''data'', PDict [(''img'', PStr ''datum-1'')]),
                (''filled'', PDict [(''img'', PBool False)])]"

definition header1 :: header where
  "header1 = \<lparr>start = start1, descriptors = [desc_img], stop = [(''uid'', PStr ''stop1'')]\<rparr>"

definition source1 :: source where
  "source1 =
     \<lparr>get_events = (\<lambda>h fields. [event_img]),
      copy_files = (\<lambda>u. [(''/old/'' @ u, ''/new/'' @ u)]),
      resource_given_uid = (\<lambda>u. \<lparr>res_uid = u, res_spec = PStr ''npy'', resource_path = PStr u,
                                   resource_kwargs = PDict []\<rparr>),
      resource_given_eid = (\<lambda>v. \<lparr>res_uid = ''r1'', res_spec = PStr ''npy'',
                                   resource_path = PStr ''r1'', resource_kwargs = PDict []\<rparr>),
      datum_gen_given_resource = (\<lambda>u. [\<lparr>datum_id = PStr ''datum-1'', datum_kwargs = PDict []\<rparr>])\<rparr>"

definition db_empty :: destination where
  "db_empty = \<lparr>mds_inserted = [], fs_resources = [], fs_datums = [],
               fresh_uid = (\<lambda>n. ''new-'' @ replicate n CHR ''i'')\<rparr>"

section \<open>Properties of the Run Locator\<close>

lemma take_every_one: "take_every (Suc 0) xs = xs"
  by (induction xs) auto

lemma py_slice_from_zero: "py_slice_from xs (Some 0) None = Inr xs"
  by (simp add: py_slice_from_def take_every_one)

text \<open>
  C5. A slice key with a negative start \<open>s\<close> and a stop that is \<open>None\<close> or at most 0
  fetches the \<open>|s|\<close> most recent runs, most recent first, slices that list as
  \<open>runs[-stop::step]\<close> and gives the Headers of the runs left. A key whose start is
  \<open>None\<close> fails with a \<open>ValueError\<close>; a key whose start is 0 or more fails with the
  \<open>ValueError\<close> that names \<open>key.start\<close>. \<open>slice(-5, 0)\<close> gives the Headers of the five
  most recent runs, or of all runs when the store holds fewer: exactly five when the store
  holds at least five.
\<close>

theorem search_slice_spec:
  "(s < 0 \<and> (case st of None \<Rightarrow> True | Some t \<Rightarrow> t \<le> 0) \<longrightarrow>
      search_slice (Some s) st step m =
        map_sum id (map (from_run_start m))
          (py_slice_from (take (nat (- s)) (run_starts m)) (map_option uminus st) step))
   \<and> (\<exists>msg. search_slice None st step m = Inl (ValueError msg))
   \<and> (0 \<le> s \<longrightarrow> search_slice (Some s) st step m = Inl (ValueError (SliceStartMustBeNegative s)))
   \<and> search_slice (Some (- 5)) (Some 0) None m = Inr (map (from_run_start m) (take 5 (run_starts m)))
   \<and> (5 \<le> length (run_starts m) \<longrightarrow>
        (\<exists>hs. search_slice (Some (- 5)) (Some 0) None m = Inr hs \<and> length hs = 5))"
proof -
  have a: "s < 0 \<and> (case st of None \<Rightarrow> True | Some t \<Rightarrow> t \<le> 0) \<longrightarrow>
      search_slice (Some s) st step m =
        map_sum id (map (from_run_start m))
          (py_slice_from (take (nat (- s)) (run_starts m)) (map_option uminus st) step)"
    by (auto simp: search_slice_def find_last_def split: option.splits sum.splits)
  have b: "\<exists>msg. search_slice None st step m = Inl (ValueError msg)"
    by (simp add: search_slice_def)
  have c: "0 \<le> s \<longrightarrow> search_slice (Some s) st step m = Inl (ValueError (SliceStartMustBeNegative s))"
    by (simp add: search_slice_def)
  have d: "search_slice (Some (- 5)) (Some 0) None m = Inr (map (from_run_start m) (take 5 (run_starts m)))"
    by (simp add: search_slice_def find_last_def py_slice_from_zero)
  have e: "5 \<le> length (run_starts m) \<longrightarrow>
        (\<exists>hs. search_slice (Some (- 5)) (Some 0) None m = Inr hs \<and> length hs = 5)"
    using d by simp
  from a b c d e show ?thesis by blast
qed

theorem search_slice_spec_witness:
  "(- 2 :: int) < 0 \<and> search_slice (Some (- 2)) (Some (- 1)) None mds3 = Inr [hdr ''b'']
   \<and> (0::int) \<le> 1 \<and> search_slice (Some 1) None None mds3 = Inl (ValueError (SliceStartMustBeNegative 1))
   \<and> search_slice (Some (- 5)) (Some 0) None mds3 = Inr [hdr ''c'', hdr ''b'', hdr ''a'']"
  using search_slice_spec [of "- 2" "Some (- 1)" None mds3] search_slice_spec [of 1 None None mds3]
  by (simp add: mds3_def from_run_start_def hdr_def py_slice_from_def)

text \<open>
  On the store of three runs \<open>slice(-5, 0)\<close> gives three Headers, not five.
\<close>

theorem search_slice_five_counterexample:
  "search_slice (Some (- 5)) (Some 0) None mds3 = Inr [hdr ''c'', hdr ''b'', hdr ''a'']
   \<and> length [hdr ''c'', hdr ''b'', hdr ''a''] \<noteq> 5"
  by (simp add: search_slice_def find_last_def py_slice_from_def mds3_def from_run_start_def hdr_def)

lemma next_n_eq:
  "next_n i k gen r =
     (if k \<le> length gen then Inr (if k = 0 then r else Some (gen ! (k - 1)))
      else Inl (IndexError (i + length gen)))"
proof (induction k arbitrary: i gen r)
  case 0
  then show ?case by simp
next
  case (Suc k)
  show ?case
  proof (cases gen)
    case Nil
    then show ?thesis by simp
  next
    case (Cons g gs)
    then show ?thesis using Suc.IH [of "Suc i" gs "Some g"]
      by (cases k) auto
  qed
qed

text \<open>
  C6. A negative integer key \<open>n\<close> gives the Header of the \<open>|n|\<close>-th most recently created
  run (counted from 1) when the store holds at least \<open>|n|\<close> runs, and fails with an
  \<open>IndexError\<close> that reports the number of runs the store holds otherwise.
\<close>

theorem search_int_negative:
  "n < 0 \<Longrightarrow>
   search_int n m =
     (if nat (- n) \<le> length (run_starts m)
      then Inr (from_run_start m (run_starts m ! (nat (- n) - 1)))
      else Inl (IndexError (length (run_starts m))))"
  by (auto simp: search_int_def next_n_eq find_last_def min_def)

theorem search_int_negative_witness:
  "(- 2 :: int) < 0 \<and> search_int (- 2) mds3 = Inr (hdr ''b'')
   \<and> search_int (- 4) mds3 = Inl (IndexError 3)"
  using search_int_negative [of "- 2" mds3] search_int_negative [of "- 4" mds3]
  by (simp add: mds3_def from_run_start_def hdr_def)

lemma find_regex:
  "find_run_starts m (UidRegex (key @ ''.*'')) = filter (uid_has_prefix key) (run_starts m)"
  by (auto simp: find_run_starts_def uid_has_prefix_def intro!: filter_cong split: pyval.splits)

lemma find_exact: "find_run_starts m (UidIs key) = filter (uid_is key) (run_starts m)"
  by (simp add: find_run_starts_def uid_is_def [abs_def])

text \<open>
  C7. For a string key the matches are the exact matches when the key has 36 characters
  and an exact match exists, and the prefix matches otherwise. No match fails with a
  \<open>ValueError\<close>, two or more matches fail with the \<open>ValueError\<close> that carries the number
  of matches and asks for more characters, and one match gives that run's Header.
\<close>

theorem search_str_cases:
  "search_str key m =
     (let exact = filter (uid_is key) (run_starts m);
          results = (if length key = 36 \<and> exact \<noteq> [] then exact
                     else filter (uid_has_prefix key) (run_starts m))
      in case results of
           [] \<Rightarrow> Inl (ValueError (NoRunForKey key))
         | [r] \<Rightarrow> Inr (from_run_start m r)
         | _ \<Rightarrow> Inl (ValueError (KeyMatchesRuns key (length results))))"
  unfolding search_str_def find_regex find_exact
  by (auto simp: Let_def split: list.splits)

section \<open>Properties of the Stream Map Operator\<close>

lemma inner_loop_append:
  "inner_loop E sn dk prov f st (xs @ ys) =
     (case inner_loop E sn dk prov f st xs of
        (out, Inl e) \<Rightarrow> (out, Inl e)
      | (out, Inr st') \<Rightarrow>
          (case inner_loop E sn dk prov f st' ys of (out', r) \<Rightarrow> (out @ out', r)))"
  by (induction xs arbitrary: st) (auto split: prod.splits sum.splits)

lemma event_map_ignores_data_keys:
  "event_map E stream_name data_keys provenance f stream =
   event_map E stream_name data_keys' provenance f stream"
proof -
  have step: "inner_step E stream_name data_keys provenance f =
              inner_step E stream_name data_keys' provenance f"
    by (simp add: inner_step_def fun_eq_iff)
  have "inner_loop E stream_name data_keys provenance f st stream =
        inner_loop E stream_name data_keys' provenance f st stream" for st
    by (induction stream arbitrary: st) (simp_all add: step)
  then show ?thesis by (simp add: event_map_def)
qed

text \<open>
  C2. With the configuration \<open>{'x': {'shape': [10, 10]}}\<close>, a Start and a Descriptor of the
  target stream whose \<open>data_keys\<close> are \<open>{'x': {'dtype': 'number'}}\<close>, the emitted
  Descriptor has the source's \<open>data_keys\<close> as they are: the configured fragment is not
  merged, where the spec's words give \<open>{'x': {'dtype': 'number', 'shape': [10, 10]}}\<close>.
\<close>

theorem event_map_data_keys_not_merged:
  "event_map env0 ''primary'' cfg_shape PNone (\<lambda>v. Inr v)
     [(''start'', start1), (''descriptor'', desc1)] =
   ([(''start'', [(''uid'', PStr ''uuid-''), (''time'', PNum 0),
                  (''parents'', PList [PStr ''s1'']), (''provenance'', PNone)]),
     (''descriptor'', [(''uid'', PStr ''uuid-i''), (''time'', PNum 1),
                       (''run_start'', PStr ''uuid-''),
                       (''data_keys'', PDict [(''x'', PDict [(''dtype'', PStr ''number'')])]),
                       (''name'', PStr ''primary'')])],
    None)
   \<and> spec_data_keys cfg_shape dk1 =
       [(''x'', PDict [(''dtype'', PStr ''number''), (''shape'', PList [PNum 10, PNum 10])])]"
  by (simp add: event_map_def inner_step_def em_init_def env0_def start1_def desc1_def dk1_def
      cfg_shape_def Let_def getitem_def dict_get_def doc_or_uid_to_uid_def subscript_def
      py_dict_def update_with_self_def spec_data_keys_def)

lemma apply_f_raises:
  "list_all (\<lambda>k'. case map_of data k' of None \<Rightarrow> False
                   | Some v' \<Rightarrow> (case f v' of Inl e' \<Rightarrow> False | Inr w \<Rightarrow> True)) ks1 \<Longrightarrow>
   map_of data k = Some v \<Longrightarrow> f v = Inl e \<Longrightarrow>
   apply_f f data (ks1 @ k # ks2) nd = Inl (Raised e)"
  by (induction ks1 arbitrary: nd) (auto simp: getitem_def split: option.splits sum.splits)

text \<open>
  C3. The generator has consumed \<open>pre\<close> without an exception and is in a state with an
  active derived run. The next Event matches the active descriptor, and the transform
  returns on the fields before \<open>k\<close> and raises on the value of \<open>k\<close>. Then the operator
  emits, after what it emitted for \<open>pre\<close>, one Stop of the derived run with
  \<open>exit_status = failure\<close> and nothing more, whatever follows in the stream, and ends with
  the exception of the transform.
\<close>

theorem transform_failure_emits_failure_stop:
  assumes "inner_loop E stream_name data_keys provenance f em_init pre = (out, Inr st)"
    and "getitem ev ''descriptor'' = Inr dv"
    and "doc_or_uid_to_uid dv = Inr (descriptor_uid st)"
    and "run_start_uid st = Some rsu"
    and "new_descriptor_uid st = Some ndu"
    and "new_data_keys st = Some ndk"
    and "getitem ev ''data'' = Inr (PDict data)"
    and "map fst ndk = ks1 @ k # ks2"
    and "list_all (\<lambda>k'. case map_of data k' of None \<Rightarrow> False
                        | Some v' \<Rightarrow> (case f v' of Inl e' \<Rightarrow> False | Inr w \<Rightarrow> True)) ks1"
    and "map_of data k = Some v"
    and "f v = Inl e"
  shows "event_map E stream_name data_keys provenance f (pre @ (''event'', ev) # post) =
           (out @ [(''stop'', [(''uid'', PStr (uuid4 E (nuuid st + 1))), (''time'', clock E (ntime st)),
                               (''run_start'', PStr rsu), (''exit_status'', PStr ''failure'')])],
            Some (Raised e))"
proof -
  from apply_f_raises [OF assms(9) assms(10) assms(11)]
  have "apply_f f data (map fst ndk) data = Inl (Raised e)"
    by (simp add: assms(8))
  then have t: "try_event E f st ev = Inl (Raised e)"
    using assms(5,6,7) by (simp add: try_event_def py_dict_def)
  have u: "try_event_uuids ev = 1"
    using assms(7) by (simp add: try_event_uuids_def py_dict_def)
  have "inner_step E stream_name data_keys provenance f st (''event'', ev) =
          ([(''stop'', new_stop E (nuuid st + 1) (ntime st) rsu ''failure'')], Inl (Raised e))"
    using assms(2,3,4) t u by (simp add: inner_step_def)
  then show ?thesis
    using assms(1) by (simp add: event_map_def inner_loop_append new_stop_def)
qed

theorem transform_failure_emits_failure_stop_witness:
  "event_map env0 ''primary'' [(''x'', PDict [])] PNone fail_on_2
     [(''start'', start1), (''descriptor'', desc1),
      (''event'', event1 1), (''event'', event1 2), (''event'', event1 3), (''stop'', [])] =
   ([(''start'', [(''uid'', PStr ''uuid-''), (''time'', PNum 0),
                  (''parents'', PList [PStr ''s1'']), (''provenance'', PNone)]),
     (''descriptor'', [(''uid'', PStr ''uuid-i''), (''time'', PNum 1),
                       (''run_start'', PStr ''uuid-''), (''data_keys'', PDict dk1),
                       (''name'', PStr ''primary'')]),
     (''event'', [(''uid'', PStr ''uuid-ii''), (''descriptor'', PStr ''uuid-i''),
                  (''data'', PDict [(''x'', PNum 101)])]),
     (''stop'', [(''uid'', PStr ''uuid-iiii''), (''time'', PNum 2),
                 (''run_start'', PStr ''uuid-''), (''exit_status'', PStr ''failure'')])],
    Some (Raised ''boom''))"
proof -
  let ?pre = "[(''start'', start1), (''descriptor'', desc1), (''event'', event1 1)]"
  let ?st = "\<lparr>run_start_uid = Some ''uuid-'', descriptor_uid = PStr ''d1'',
              new_data_keys = Some dk1, new_descriptor_uid = Some ''uuid-i'',
              nuuid = 3, ntime = 2\<rparr>"
  let ?out = "[(''start'', [(''uid'', PStr ''uuid-''), (''time'', PNum 0),
                  (''parents'', PList [PStr ''s1'']), (''provenance'', PNone)]),
     (''descriptor'', [(''uid'', PStr ''uuid-i''), (''time'', PNum 1),
                       (''run_start'', PStr ''uuid-''), (''data_keys'', PDict dk1),
                       (''name'', PStr ''primary'')]),
     (''event'', [(''uid'', PStr ''uuid-ii''), (''descriptor'', PStr ''uuid-i''),
                  (''data'', PDict [(''x'', PNum 101)])])]"
  have pre: "inner_loop env0 ''primary'' [(''x'', PDict [])] PNone fail_on_2 em_init ?pre
               = (?out, Inr ?st)"
    by (simp add: inner_step_def em_init_def env0_def start1_def desc1_def dk1_def event1_def
        Let_def getitem_def dict_get_def doc_or_uid_to_uid_def subscript_def py_dict_def
        update_with_self_def try_event_def fail_on_2_def add100_def eval_nat_numeral)
  have h2: "getitem (event1 2) ''descriptor'' = Inr (PStr ''d1'')"
    by (simp add: event1_def getitem_def)
  have h3: "doc_or_uid_to_uid (PStr ''d1'') = Inr (descriptor_uid ?st)"
    by (simp add: doc_or_uid_to_uid_def)
  have h7: "getitem (event1 2) ''data'' = Inr (PDict [(''x'', PNum 2)])"
    by (simp add: event1_def getitem_def)
  have h8: "map fst dk1 = [] @ ''x'' # []" by (simp add: dk1_def)
  have h11: "fail_on_2 (PNum 2) = Inl ''boom''" by (simp add: fail_on_2_def)
  from transform_failure_emits_failure_stop [OF pre h2 h3 _ _ _ h7 h8 _ _ h11,
      of "''uuid-''" "''uuid-i''" "[(''event'', event1 3), (''stop'', [])]"] 
  show ?thesis
    by (simp add: env0_def eval_nat_numeral)
qed

lemma update_data_keys_dicts:
  "list_all (\<lambda>kv. case snd kv of PDict s \<Rightarrow> True | _ \<Rightarrow> False) dk \<Longrightarrow> update_data_keys dk = Inr dk"
  by (induction dk rule: update_data_keys.induct)
     (auto simp: update_with_self_def split: pyval.splits)

lemma getitem_in_keys: "k \<in> fst ` set data \<Longrightarrow> getitem data k = Inr (dict_get data k)"
  by (auto simp: getitem_def dict_get_def map_of_eq_None_iff split: option.splits)

lemma apply_f_total:
  "\<forall>v. f v = Inr (g v) \<Longrightarrow> set ks \<subseteq> fst ` set data \<Longrightarrow>
   apply_f f data ks nd = Inr (fold (\<lambda>k. AList.update k (g (dict_get data k))) ks nd)"
  by (induction ks arbitrary: nd) (auto simp: getitem_in_keys)

lemma map_of_fold_update:
  "map_of (fold (\<lambda>k. AList.update k (h k)) ks nd) k =
     (if k \<in> set ks then Some (h k) else map_of nd k)"
  by (induction ks arbitrary: nd) (auto simp: update_conv')

lemma map_fields_at:
  "k \<in> set ks \<Longrightarrow> map_of data k = Some v \<Longrightarrow> map_of (map_fields g ks data) k = Some (g v)"
  by (simp add: map_fields_def map_of_fold_update dict_get_def)

lemma step_start:
  "map_of d ''uid'' = Some u \<Longrightarrow>
   inner_step E sn dks prov f st (''start'', d) =
     ([(''start'', [(''uid'', PStr (uuid4 E (nuuid st))), (''time'', clock E (ntime st)),
                    (''parents'', PList [u]), (''provenance'', prov)])],
      Inr (st\<lparr>run_start_uid := Some (uuid4 E (nuuid st)), nuuid := nuuid st + 1,
              ntime := ntime st + 1\<rparr>))"
  by (simp add: inner_step_def getitem_def Let_def)

lemma step_descriptor:
  "dict_get d ''name'' = PStr sn \<Longrightarrow> run_start_uid st = Some rsu \<Longrightarrow>
   map_of d ''uid'' = Some du \<Longrightarrow> map_of d ''data_keys'' = Some (PDict dk) \<Longrightarrow>
   list_all (\<lambda>kv. case snd kv of PDict s \<Rightarrow> True | _ \<Rightarrow> False) dk \<Longrightarrow>
   inner_step E sn dks prov f st (''descriptor'', d) =
     ([(''descriptor'', [(''uid'', PStr (uuid4 E (nuuid st))), (''time'', clock E (ntime st)),
                         (''run_start'', PStr rsu), (''data_keys'', PDict dk),
                         (''name'', PStr sn)])],
      Inr (st\<lparr>descriptor_uid := du, new_data_keys := Some dk,
              new_descriptor_uid := Some (uuid4 E (nuuid st)),
              nuuid := nuuid st + 1, ntime := ntime st + 1\<rparr>))"
  by (simp add: inner_step_def getitem_def doc_or_uid_to_uid_def subscript_def py_dict_def
      update_data_keys_dicts Let_def)

lemma step_event:
  "map_of ev ''descriptor'' = Some dv \<Longrightarrow> doc_or_uid_to_uid dv = Inr (descriptor_uid st) \<Longrightarrow>
   run_start_uid st = Some rsu \<Longrightarrow> new_descriptor_uid st = Some ndu \<Longrightarrow>
   new_data_keys st = Some dk \<Longrightarrow> map_of ev ''data'' = Some (PDict data) \<Longrightarrow>
   set (map fst dk) \<subseteq> fst ` set data \<Longrightarrow> \<forall>v. f v = Inr (g v) \<Longrightarrow>
   inner_step E sn dks prov f st (''event'', ev) =
     ([(''event'', AList.update ''descriptor'' (PStr ndu)
                    (AList.update ''uid'' (PStr (uuid4 E (nuuid st)))
                      (AList.update ''data'' (PDict (map_fields g (map fst dk) data)) ev)))],
      Inr (st\<lparr>nuuid := nuuid st + 1\<rparr>))"
  using apply_f_total [of f g "map fst dk" data data]
  by (simp add: inner_step_def getitem_def try_event_def py_dict_def map_fields_def)

lemma step_stop:
  "run_start_uid st = Some rsu \<Longrightarrow>
   inner_step E sn dks prov f st (''stop'', d) =
     ([(''stop'', [(''uid'', PStr (uuid4 E (nuuid st))), (''time'', clock E (ntime st)),
                   (''run_start'', PStr rsu), (''exit_status'', PStr ''success'')])],
      Inr (st\<lparr>descriptor_uid := PNone, run_start_uid := None,
              nuuid := nuuid st + 1, ntime := ntime st + 1\<rparr>))"
  by (simp add: inner_step_def new_stop_def)

text \<open>
  C4. The source stream is a Start with a uid, a Descriptor named \<open>primary\<close> whose
  \<open>data_keys\<close> declare the field \<open>x\<close> (each schema a dict), three Events of that
  descriptor that carry every declared field, and a Stop; the transform is total. Then
  \<open>event_map("primary", {"x": {}}, provenance)\<close> emits one Start whose \<open>parents\<close> is the
  list of the source Start's uid, one Descriptor, the three Events in order with every
  declared field, \<open>x\<close> among them, replaced by the transform of its value, and one Stop
  with \<open>exit_status = success\<close>, and raises nothing.
\<close>

theorem event_map_primary_three_events:
  assumes "map_of start_doc ''uid'' = Some su"
    and "dict_get desc ''name'' = PStr ''primary''"
    and "map_of desc ''uid'' = Some du"
    and "map_of desc ''data_keys'' = Some (PDict dk)"
    and "list_all (\<lambda>kv. case snd kv of PDict s \<Rightarrow> True | _ \<Rightarrow> False) dk"
    and "''x'' \<in> set (map fst dk)"
    and "map_of e1 ''descriptor'' = Some dv1" and "doc_or_uid_to_uid dv1 = Inr du"
    and "map_of e2 ''descriptor'' = Some dv2" and "doc_or_uid_to_uid dv2 = Inr du"
    and "map_of e3 ''descriptor'' = Some dv3" and "doc_or_uid_to_uid dv3 = Inr du"
    and "map_of e1 ''data'' = Some (PDict data1)" and "set (map fst dk) \<subseteq> fst ` set data1"
    and "map_of e2 ''data'' = Some (PDict data2)" and "set (map fst dk) \<subseteq> fst ` set data2"
    and "map_of e3 ''data'' = Some (PDict data3)" and "set (map fst dk) \<subseteq> fst ` set data3"
    and "map_of data1 ''x'' = Some x1" and "map_of data2 ''x'' = Some x2"
    and "map_of data3 ''x'' = Some x3"
    and "\<forall>v. f v = Inr (g v)"
  shows "event_map E ''primary'' [(''x'', PDict [])] provenance f
           [(''start'', start_doc), (''descriptor'', desc),
            (''event'', e1), (''event'', e2), (''event'', e3), (''stop'', stop_doc)] =
         ([(''start'', [(''uid'', PStr (uuid4 E 0)), (''time'', clock E 0),
                        (''parents'', PList [su]), (''provenance'', provenance)]),
           (''descriptor'', [(''uid'', PStr (uuid4 E 1)), (''time'', clock E 1),
                             (''run_start'', PStr (uuid4 E 0)), (''data_keys'', PDict dk),
                             (''name'', PStr ''primary'')]),
           (''event'', AList.update ''descriptor'' (PStr (uuid4 E 1))
                        (AList.update ''uid'' (PStr (uuid4 E 2))
                          (AList.update ''data'' (PDict (map_fields g (map fst dk) data1)) e1))),
           (''event'', AList.update ''descriptor'' (PStr (uuid4 E 1))
                        (AList.update ''uid'' (PStr (uuid4 E 3))
                          (AList.update ''data'' (PDict (map_fields g (map fst dk) data2)) e2))),
           (''event'', AList.update ''descriptor'' (PStr (uuid4 E 1))
                        (AList.update ''uid'' (PStr (uuid4 E 4))
                          (AList.update ''data'' (PDict (map_fields g (map fst dk) data3)) e3))),
           (''stop'', [(''uid'', PStr (uuid4 E 5)), (''time'', clock E 2),
                       (''run_start'', PStr (uuid4 E 0)), (''exit_status'', PStr ''success'')])],
          None)
       \<and> map_of (map_fields g (map fst dk) data1) ''x'' = Some (g x1)
       \<and> map_of (map_fields g (map fst dk) data2) ''x'' = Some (g x2)
       \<and> map_of (map_fields g (map fst dk) data3) ''x'' = Some (g x3)"
proof -
  let ?step = "inner_step E ''primary'' [(''x'', PDict [])] provenance f"
  define st1 where "st1 = \<lparr>run_start_uid = Some (uuid4 E 0), descriptor_uid = PNone,
     new_data_keys = None, new_descriptor_uid = None, nuuid = 1, ntime = 1\<rparr>"
  define st2 where "st2 n = \<lparr>run_start_uid = Some (uuid4 E 0), descriptor_uid = du,
     new_data_keys = Some dk, new_descriptor_uid = Some (uuid4 E 1), nuuid = n, ntime = 2\<rparr>" for n
  have s1: "?step em_init (''start'', start_doc) =
     ([(''start'', [(''uid'', PStr (uuid4 E 0)), (''time'', clock E 0),
                        (''parents'', PList [su]), (''provenance'', provenance)])], Inr st1)"
    using step_start [OF assms(1), of E "''primary''" _ provenance f em_init]
    by (simp add: st1_def em_init_def)
  have s2: "?step st1 (''descriptor'', desc) =
     ([(''descriptor'', [(''uid'', PStr (uuid4 E 1)), (''time'', clock E 1),
                             (''run_start'', PStr (uuid4 E 0)), (''data_keys'', PDict dk),
                             (''name'', PStr ''primary'')])], Inr (st2 2))"
    using step_descriptor [OF assms(2) _ assms(3) assms(4) assms(5), of st1 "uuid4 E 0" E _ provenance f]
    by (simp add: st1_def st2_def)
  have ev: "?step (st2 n) (''event'', e) =
     ([(''event'', AList.update ''descriptor'' (PStr (uuid4 E 1))
                        (AList.update ''uid'' (PStr (uuid4 E n))
                          (AList.update ''data'' (PDict (map_fields g (map fst dk) data)) e)))],
      Inr (st2 (n + 1)))"
    if "map_of e ''descriptor'' = Some dv" "doc_or_uid_to_uid dv = Inr du"
       "map_of e ''data'' = Some (PDict data)" "set (map fst dk) \<subseteq> fst ` set data"
    for n e dv data
    using step_event [of e dv "st2 n" "uuid4 E 0" "uuid4 E 1" dk data f g E "''primary''" _ provenance]
      that assms(22)
    by (simp add: st2_def)
  have s3: "?step (st2 2) (''event'', e1) = ([(''event'', AList.update ''descriptor'' (PStr (uuid4 E 1))
                        (AList.update ''uid'' (PStr (uuid4 E 2))
                          (AList.update ''data'' (PDict (map_fields g (map fst dk) data1)) e1)))],
      Inr (st2 3))"
    using ev [OF assms(7,8,13,14), of 2] by simp
  have s4: "?step (st2 3) (''event'', e2) = ([(''event'', AList.update ''descriptor'' (PStr (uuid4 E 1))
                        (AList.update ''uid'' (PStr (uuid4 E 3))
                          (AList.update ''data'' (PDict (map_fields g (map fst dk) data2)) e2)))],
      Inr (st2 4))"
    using ev [OF assms(9,10,15,16), of 3] by simp
  have s5: "?step (st2 4) (''event'', e3) = ([(''event'', AList.update ''descriptor'' (PStr (uuid4 E 1))
                        (AList.update ''uid'' (PStr (uuid4 E 4))
                          (AList.update ''data'' (PDict (map_fields g (map fst dk) data3)) e3)))],
      Inr (st2 5))"
    using ev [OF assms(11,12,17,18), of 4] by simp
  have s6: "?step (st2 5) (''stop'', stop_doc) =
      ([(''stop'', [(''uid'', PStr (uuid4 E 5)), (''time'', clock E 2),
                       (''run_start'', PStr (uuid4 E 0)), (''exit_status'', PStr ''success'')])],
       Inr ((st2 5)\<lparr>descriptor_uid := PNone, run_start_uid := None, nuuid := 6, ntime := 3\<rparr>))"
    using step_stop [of "st2 5" "uuid4 E 0" E "''primary''" _ provenance f stop_doc]
    by (simp add: st2_def)
  have run: "event_map E ''primary'' [(''x'', PDict [])] provenance f
           [(''start'', start_doc), (''descriptor'', desc),
            (''event'', e1), (''event'', e2), (''event'', e3), (''stop'', stop_doc)] =
         ([(''start'', [(''uid'', PStr (uuid4 E 0)), (''time'', clock E 0),
                        (''parents'', PList [su]), (''provenance'', provenance)]),
           (''descriptor'', [(''uid'', PStr (uuid4 E 1)), (''time'', clock E 1),
                             (''run_start'', PStr (uuid4 E 0)), (''data_keys'', PDict dk),
                             (''name'', PStr ''primary'')]),
           (''event'', AList.update ''descriptor'' (PStr (uuid4 E 1))
                        (AList.update ''uid'' (PStr (uuid4 E 2))
                          (AList.update ''data'' (PDict (map_fields g (map fst dk) data1)) e1))),
           (''event'', AList.update ''descriptor'' (PStr (uuid4 E 1))
                        (AList.update ''uid'' (PStr (uuid4 E 3))
                          (AList.update ''data'' (PDict (map_fields g (map fst dk) data2)) e2))),
           (''event'', AList.update ''descriptor'' (PStr (uuid4 E 1))
                        (AList.update ''uid'' (PStr (uuid4 E 4))
                          (AList.update ''data'' (PDict (map_fields g (map fst dk) data3)) e3))),
           (''stop'', [(''uid'', PStr (uuid4 E 5)), (''time'', clock E 2),
                       (''run_start'', PStr (uuid4 E 0)), (''exit_status'', PStr ''success'')])],
          None)"
    by (simp add: event_map_def s1 s2 s3 s4 s5 s6)
  from run map_fields_at [OF assms(6) assms(19)] map_fields_at [OF assms(6) assms(20)]
    map_fields_at [OF assms(6) assms(21)]
  show ?thesis by simp
qed

theorem event_map_primary_three_events_witness:
  "event_map env0 ''primary'' [(''x'', PDict [])] PNone (\<lambda>v. Inr (add100 v))
     [(''start'', start1), (''descriptor'', desc1),
      (''event'', event1 1), (''event'', event1 2), (''event'', event1 3), (''stop'', [])] =
   ([(''start'', [(''uid'', PStr ''uuid-''), (''time'', PNum 0),
                  (''parents'', PList [PStr ''s1'']), (''provenance'', PNone)]),
     (''descriptor'', [(''uid'', PStr ''uuid-i''), (''time'', PNum 1),
                       (''run_start'', PStr ''uuid-''), (''data_keys'', PDict dk1),
                       (''name'', PStr ''primary'')]),
     (''event'', [(''uid'', PStr ''uuid-ii''), (''descriptor'', PStr ''uuid-i''),
                  (''data'', PDict [(''x'', PNum 101)])]),
     (''event'', [(''uid'', PStr ''uuid-iii''), (''descriptor'', PStr ''uuid-i''),
                  (''data'', PDict [(''x'', PNum 102)])]),
     (''event'', [(''uid'', PStr ''uuid-iiii''), (''descriptor'', PStr ''uuid-i''),
                  (''data'', PDict [(''x'', PNum 103)])]),
     (''stop'', [(''uid'', PStr ''uuid-iiiii''), (''time'', PNum 2),
                 (''run_start'', PStr ''uuid-''), (''exit_status'', PStr ''success'')])],
    None)"
  using event_map_primary_three_events [where E = env0 and start_doc = start1 and su = "PStr ''s1''"
      and desc = desc1 and du = "PStr ''d1''" and dk = dk1
      and ?e1.0 = "event1 1" and ?e2.0 = "event1 2" and ?e3.0 = "event1 3"
      and ?dv1.0 = "PStr ''d1''" and ?dv2.0 = "PStr ''d1''" and ?dv3.0 = "PStr ''d1''"
      and ?data1.0 = "[(''x'', PNum 1)]" and ?data2.0 = "[(''x'', PNum 2)]"
      and ?data3.0 = "[(''x'', PNum 3)]" and ?x1.0 = "PNum 1" and ?x2.0 = "PNum 2" and ?x3.0 = "PNum 3"
      and f = "\<lambda>v. Inr (add100 v)" and g = add100 and provenance = PNone and stop_doc = "[]"]
  by (simp add: env0_def start1_def desc1_def dk1_def event1_def dict_get_def
      doc_or_uid_to_uid_def map_fields_def add100_def eval_nat_numeral)

lemma getitem_Inl: "getitem d k = Inl e \<Longrightarrow> e = KeyError k"
  by (auto simp: getitem_def split: option.splits)

lemma doc_or_uid_to_uid_Inl: "doc_or_uid_to_uid v = Inl e \<Longrightarrow> e = TypeError \<or> e = KeyError ''uid''"
  by (auto simp: doc_or_uid_to_uid_def subscript_def dest: getitem_Inl split: pyval.splits)

lemma py_dict_Inl: "py_dict v = Inl e \<Longrightarrow> e = TypeError"
  by (auto simp: py_dict_def split: pyval.splits)

lemma update_data_keys_Inl: "update_data_keys kvs = Inl e \<Longrightarrow> e = AttributeError"
  by (induction kvs rule: update_data_keys.induct)
     (auto simp: update_with_self_def split: sum.splits pyval.splits)

lemma apply_f_not_runtime: "apply_f f data ks nd \<noteq> Inl (RuntimeError m)"
  by (induction ks arbitrary: nd) (auto dest: getitem_Inl split: sum.splits)

lemma try_event_not_runtime: "try_event E f st d \<noteq> Inl (RuntimeError m)"
  using apply_f_not_runtime
  by (auto simp: try_event_def dest: getitem_Inl py_dict_Inl split: sum.splits option.splits)

lemma step9_inv:
  "inv9 st \<Longrightarrow> inner_step E sn dk prov f st nd = (out, Inr st') \<Longrightarrow> inv9 st'"
  by (auto simp: inner_step_def Let_def inv9_def split: sum.splits option.splits if_splits)

lemma step9_drop:
  "run_start_uid st = None \<Longrightarrow> inv9 st \<Longrightarrow> event_has_descriptor_uid ev \<Longrightarrow>
   inner_step E sn dk prov f st (''event'', ev) = ([], Inr st)"
  by (auto simp: inner_step_def Let_def inv9_def event_has_descriptor_uid_def split: sum.splits)

lemma step9_err:
  assumes "inv9 st" and "fst nd = ''event'' \<Longrightarrow> event_has_descriptor_uid (snd nd)"
  shows "snd (inner_step E sn dk prov f st nd) \<noteq> Inl (RuntimeError EventBeforeRunStart)"
proof (cases "fst nd = ''event''")
  case True
  with assms(2) have h: "event_has_descriptor_uid (snd nd)" by simp
  show ?thesis
  proof (cases "run_start_uid st")
    case None
    from step9_drop [OF None assms(1) h, of E sn dk prov f] True show ?thesis
      by (cases nd) simp
  next
    case (Some r)
    then show ?thesis using True try_event_not_runtime [of E f st "snd nd" EventBeforeRunStart]
      by (auto simp: inner_step_def Let_def dest: getitem_Inl doc_or_uid_to_uid_Inl
          split: sum.splits)
  qed
next
  case False
  then show ?thesis
    by (auto simp: inner_step_def Let_def dest: getitem_Inl doc_or_uid_to_uid_Inl py_dict_Inl
        update_data_keys_Inl split: sum.splits option.splits)
qed

lemma inner_loop_inv9:
  "inv9 st \<Longrightarrow> inner_loop E sn dk prov f st stream = (out, Inr st') \<Longrightarrow> inv9 st'"
proof (induction stream arbitrary: st out)
  case Nil
  then show ?case by simp
next
  case (Cons nd stream)
  then show ?case
    by (auto split: prod.splits sum.splits dest: step9_inv)
qed

lemma inner_loop_err9:
  "inv9 st \<Longrightarrow>
   list_all (\<lambda>nd. if fst nd = ''event'' then event_has_descriptor_uid (snd nd) else True) stream \<Longrightarrow>
   snd (inner_loop E sn dk prov f st stream) \<noteq> Inl (RuntimeError EventBeforeRunStart)"
proof (induction stream arbitrary: st)
  case Nil
  then show ?case by simp
next
  case (Cons nd stream)
  obtain out r where step: "inner_step E sn dk prov f st nd = (out, r)"
    by (cases "inner_step E sn dk prov f st nd")
  from Cons.prems have ok: "fst nd = ''event'' \<Longrightarrow> event_has_descriptor_uid (snd nd)"
    by (simp split: if_splits)
  from step9_err [OF Cons.prems(1) ok, of E sn dk prov f] step
  have r: "r \<noteq> Inl (RuntimeError EventBeforeRunStart)" by simp
  show ?case
  proof (cases r)
    case (Inl e)
    then show ?thesis using step r by simp
  next
    case (Inr st')
    from step9_inv [OF Cons.prems(1)] step Inr have "inv9 st'" by simp
    from Cons.IH [OF this] Cons.prems(2) show ?thesis using step Inr
      by (auto split: prod.splits)
  qed
qed

text \<open>
  C9. In a stream whose Events all carry a descriptor uid that is not \<open>None\<close>, the
  generator never ends with \<open>RuntimeError("Received Event before RunStart.")\<close>: in every
  state it reaches with no active derived run the active descriptor uid is \<open>None\<close>, and the
  next Event is dropped there (nothing emitted, nothing raised, the state unchanged).
\<close>

theorem event_before_run_start_unreachable:
  assumes "list_all (\<lambda>nd. if fst nd = ''event'' then event_has_descriptor_uid (snd nd) else True) stream"
  shows "snd (event_map E stream_name data_keys provenance f stream)
           \<noteq> Some (RuntimeError EventBeforeRunStart)
         \<and> (\<forall>pre ev post out st.
              stream = pre @ (''event'', ev) # post
              \<and> inner_loop E stream_name data_keys provenance f em_init pre = (out, Inr st)
              \<and> run_start_uid st = None
              \<longrightarrow> descriptor_uid st = PNone
                  \<and> inner_step E stream_name data_keys provenance f st (''event'', ev) = ([], Inr st))"
proof -
  have init: "inv9 em_init" by (simp add: inv9_def em_init_def)
  from inner_loop_err9 [OF init assms, of E stream_name data_keys provenance f]
  have a: "snd (event_map E stream_name data_keys provenance f stream)
           \<noteq> Some (RuntimeError EventBeforeRunStart)"
    by (auto simp: event_map_def split: prod.splits sum.splits)
  have b: "descriptor_uid st = PNone
           \<and> inner_step E stream_name data_keys provenance f st (''event'', ev) = ([], Inr st)"
    if "stream = pre @ (''event'', ev) # post"
      and "inner_loop E stream_name data_keys provenance f em_init pre = (out, Inr st)"
      and "run_start_uid st = None" for pre ev post out st
  proof -
    from inner_loop_inv9 [OF init that(2)] have i: "inv9 st" .
    from assms that(1) have h: "event_has_descriptor_uid ev" by simp
    from i that(3) have "descriptor_uid st = PNone" by (simp add: inv9_def)
    with step9_drop [OF that(3) i h] show ?thesis by simp
  qed
  from a b show ?thesis by blast
qed

theorem event_before_run_start_unreachable_witness:
  "event_has_descriptor_uid (event1 1)
   \<and> event_map env0 ''primary'' [] PNone Inr [(''event'', event1 1)] = ([], None)"
  using event_before_run_start_unreachable [of "[(''event'', event1 1)]" env0 "''primary''" "[]" PNone Inr]
  by (simp add: event_has_descriptor_uid_def event1_def getitem_def doc_or_uid_to_uid_def
      event_map_def inner_step_def em_init_def)

lemma try_event_descriptor:
  "try_event E f st ev = Inr ne \<Longrightarrow>
     \<exists>u. new_descriptor_uid st = Some u \<and> map_of ne ''descriptor'' = Some (PStr u)"
  by (auto simp: try_event_def update_conv' split: sum.splits option.splits)

lemma refs_ok_append:
  "refs_ok s d (a @ b) =
     (refs_ok s d a \<and> refs_ok (fst (track (s, d) a)) (snd (track (s, d) a)) b)"
  by (induction a arbitrary: s d) auto

lemma step10:
  assumes "inv10 st s d" and "inner_step E sn dk prov f st nd = (out, r)"
  shows "refs_ok s d out \<and>
         (\<forall>st'. r = Inr st' \<longrightarrow> inv10 st' (fst (track (s, d) out)) (snd (track (s, d) out)))"
proof -
  consider (start) "fst nd = ''start''"
    | (desc) "fst nd \<noteq> ''start''" "fst nd = ''descriptor'' \<and> dict_get (snd nd) ''name'' = PStr sn"
    | (event) "fst nd = ''event''"
    | (stop) "fst nd = ''stop''"
    | (other) "fst nd \<noteq> ''start''" "\<not> (fst nd = ''descriptor'' \<and> dict_get (snd nd) ''name'' = PStr sn)"
         "fst nd \<noteq> ''event''" "fst nd \<noteq> ''stop''"
    by blast
  then show ?thesis
  proof cases
    case start
    then show ?thesis using assms
      by (auto simp: inner_step_def Let_def inv10_def split: sum.splits option.splits)
  next
    case desc
    then show ?thesis using assms
      by (auto simp: inner_step_def Let_def inv10_def split: sum.splits option.splits)
  next
    case event
    then show ?thesis using assms
      by (auto simp: inner_step_def Let_def inv10_def new_stop_def
          dest!: try_event_descriptor split: sum.splits option.splits if_splits)
  next
    case stop
    then show ?thesis using assms
      by (auto simp: inner_step_def Let_def inv10_def new_stop_def split: sum.splits option.splits)
  next
    case other
    then show ?thesis using assms
      by (auto simp: inner_step_def Let_def)
  qed
qed

lemma inner_loop_refs_ok:
  "inv10 st s d \<Longrightarrow> refs_ok s d (fst (inner_loop E sn dk prov f st stream))"
proof (induction stream arbitrary: st s d)
  case Nil
  then show ?case by simp
next
  case (Cons nd stream)
  obtain out r where step: "inner_step E sn dk prov f st nd = (out, r)"
    by (cases "inner_step E sn dk prov f st nd")
  from step10 [OF Cons.prems step] have
    ok: "refs_ok s d out"
    and inv': "\<And>st'. r = Inr st' \<Longrightarrow> inv10 st' (fst (track (s, d) out)) (snd (track (s, d) out))"
    by blast+
  show ?case
  proof (cases r)
    case (Inl e)
    then show ?thesis using step ok by simp
  next
    case (Inr st')
    obtain out' r' where rest: "inner_loop E sn dk prov f st' stream = (out', r')"
      by (cases "inner_loop E sn dk prov f st' stream")
    from Cons.IH [OF inv' [OF Inr]] rest
    have "refs_ok (fst (track (s, d) out)) (snd (track (s, d) out)) out'"
      by simp
    then show ?thesis using step Inr rest ok by (simp add: refs_ok_append)
  qed
qed

text \<open>
  C10. In everything the operator emits, for any stream and whether or not it ends with an
  exception, each Descriptor's \<open>run_start\<close> is the uid of the last Start emitted before
  it, each Event's \<open>descriptor\<close> is the uid of the last Descriptor emitted before it, and
  each Stop's \<open>run_start\<close> is the uid of the last Start emitted before it.
\<close>

theorem event_map_refs_ok:
  "refs_ok None None (fst (event_map E stream_name data_keys provenance f stream))"
proof -
  have "inv10 em_init None None" by (simp add: inv10_def em_init_def)
  from inner_loop_refs_ok [OF this, of E stream_name data_keys provenance f stream]
  show ?thesis by (auto simp: event_map_def split: prod.splits sum.splits)
qed

section \<open>Properties of the Run Replicator\<close>

lemma insert_descriptors_drained:
  "insert_descriptors ds [] inserted = inserted @ map (\<lambda>d. (''descriptor'', d)) ds"
  by (induction ds arbitrary: inserted) auto

lemma insert_descriptors_mset:
  "ds \<noteq> [] \<or> events = [] \<Longrightarrow>
   mset (insert_descriptors ds events inserted) =
     mset inserted + mset (map (\<lambda>d. (''descriptor'', d)) ds)
       + mset (map (\<lambda>event. (''event'', AList.delete ''filled'' event)) events)"
  by (cases ds) (auto simp: insert_descriptors_drained)

lemma copy_resources_result:
  "snd (copy_resources S us (db, fps)) = fps @ concat (map (copy_files S) us)
   \<and> mds_inserted (fst (copy_resources S us (db, fps))) = mds_inserted db"
  by (induction us arbitrary: db fps) (auto simp: Let_def)

lemma export_header_result:
  assumes "get_resource_uids S h = Inr us"
    and "descriptors h = [] \<longrightarrow> get_events S h None = []"
  shows "\<exists>db'. export_header S h (db, fps) = (db', Inr (fps @ concat (map (copy_files S) us)))
           \<and> mset (mds_inserted db') = mset (mds_inserted db) + header_documents S h"
proof -
  let ?ins = "insert_descriptors (descriptors h) (get_events S h None)
                (mds_inserted db @ [(''start'', start h)]) @ [(''stop'', stop h)]"
  let ?db = "db\<lparr>mds_inserted := ?ins\<rparr>"
  obtain db' fps' where c: "copy_resources S us (?db, fps) = (db', fps')"
    by (cases "copy_resources S us (?db, fps)")
  from copy_resources_result [of S us ?db fps] c
  have r: "fps' = fps @ concat (map (copy_files S) us)" and m: "mds_inserted db' = ?ins"
    by simp_all
  from assms(2) have "descriptors h \<noteq> [] \<or> get_events S h None = []" by blast
  from insert_descriptors_mset [OF this]
  have "mset ?ins = mset (mds_inserted db) + header_documents S h"
    by (simp add: header_documents_def)
  with m have "mset (mds_inserted db') = mset (mds_inserted db) + header_documents S h"
    by simp
  moreover have "export_header S h (db, fps) = (db', Inr fps')"
    using assms(1) c by (simp add: export_header_def Let_def)
  ultimately show ?thesis using r by blast
qed

lemma export_loop_result:
  assumes "\<forall>h \<in> set hs. get_resource_uids S h = Inr (uids h)"
    and "\<forall>h \<in> set hs. descriptors h = [] \<longrightarrow> get_events S h None = []"
  shows "snd (export_loop S hs (db, fps)) =
           Inr (fps @ concat (map (\<lambda>h. concat (map (copy_files S) (uids h))) hs))
         \<and> mset (mds_inserted (fst (export_loop S hs (db, fps)))) =
             mset (mds_inserted db) + sum_list (map (header_documents S) hs)"
  using assms
proof (induction hs arbitrary: db fps)
  case Nil
  then show ?case by simp
next
  case (Cons h hs)
  from Cons.prems have u: "get_resource_uids S h = Inr (uids h)"
    and e: "descriptors h = [] \<longrightarrow> get_events S h None = []"
    by simp_all
  from export_header_result [OF u e, of db fps] obtain db' where
    step: "export_header S h (db, fps) = (db', Inr (fps @ concat (map (copy_files S) (uids h))))"
    and m: "mset (mds_inserted db') = mset (mds_inserted db) + header_documents S h"
    by blast
  from Cons.prems have "\<forall>h \<in> set hs. get_resource_uids S h = Inr (uids h)"
    and "\<forall>h \<in> set hs. descriptors h = [] \<longrightarrow> get_events S h None = []"
    by simp_all
  from Cons.IH [OF this, of db' "fps @ concat (map (copy_files S) (uids h))"] step m
  show ?case by (simp add: add.assoc)
qed

lemma export_one_header: "export S (OneHeader h) db = export S (Headers [h]) db"
  by (simp add: export_def)

text \<open>
  C8. For a list of Headers whose resource ids \<open>get_resource_uids\<close> finds (\<open>uids h\<close> for
  the Header \<open>h\<close>) and whose Events belong to Descriptors of the Header (a Header
  without Descriptors has no Events), \<open>export\<close> adds to the destination's metadata
  store, for each Header, its Start, each of its Descriptors, each of its Events without
  \<open>filled\<close>, and its Stop, and returns the pairs of \<open>copy_files\<close>, concatenated over the
  resource ids of each Header and over the Headers.
\<close>

theorem export_inserts_and_returns:
  assumes "\<forall>h \<in> set hs. get_resource_uids S h = Inr (uids h)"
    and "\<forall>h \<in> set hs. descriptors h = [] \<longrightarrow> get_events S h None = []"
  shows "snd (export S (Headers hs) db) =
           Inr (concat (map (\<lambda>h. concat (map (copy_files S) (uids h))) hs))
         \<and> mset (mds_inserted (fst (export S (Headers hs) db))) =
             mset (mds_inserted db) + sum_list (map (header_documents S) hs)"
  using export_loop_result [OF assms, of db "[]"] by (simp add: export_def)

theorem export_inserts_and_returns_witness:
  "get_resource_uids source1 header1 = Inr [''r1'']
   \<and> snd (export source1 (Headers [header1]) db_empty) = Inr [(''/old/r1'', ''/new/r1'')]
   \<and> mset (mds_inserted (fst (export source1 (Headers [header1]) db_empty))) =
       {#(''start'', start1), (''descriptor'', desc_img),
         (''event'', [(''uid'', PStr ''e1''), (''descriptor'', PStr ''d1''),
                      (''data'', PDict [(''img'', PStr ''datum-1'')])]),
         (''stop'', [(''uid'', PStr ''stop1'')])#}"
proof -
  have u: "get_resource_uids source1 header1 = Inr [''r1'']"
    by (simp add: get_resource_uids_def header1_def desc_img_def source1_def event_img_def
        getitem_def iteritems_def py_in_def set_add_def)
  have a: "\<forall>h \<in> set [header1]. get_resource_uids source1 h = Inr ((\<lambda>h. [''r1'']) h)"
    using u by simp
  have b: "\<forall>h \<in> set [header1]. descriptors h = [] \<longrightarrow> get_events source1 h None = []"
    by (simp add: header1_def)
  from export_inserts_and_returns [OF a b, of db_empty] u
  show ?thesis
    by (simp add: header_documents_def header1_def source1_def db_empty_def event_img_def
        AList.delete_eq)
qed

section \<open>Properties of the External Store Interceptor\<close>

text \<open>
  C1. With a writer configured for \<open>img\<close>, on a stream of a Start and a Descriptor whose
  \<open>data_keys\<close> hold \<open>{'img': {'dtype': 'array'}}\<close>, the Descriptor that \<open>wrapped_f\<close> yields
  reads \<open>{'img': {'dtype': 'array', 'external': 'FILESTORE:'}}\<close>: the schema is shared
  between \<open>doc\<close> and its shallow copy \<open>fs_doc\<close>, so the annotation meant for the
  persisted copy is on the emitted document too. Before the call the document read
  \<open>{'img': {'dtype': 'array'}}\<close>.
\<close>

theorem store_dec_descriptor_annotated:
  "map (\<lambda>y. (fst y, view 3 (snd (snd y)) (HRef (fst (snd y)))))
         (fst (wrapped_f config_img heap1 [(''start'', 3), (''descriptor'', 0)])) =
     [(''start'', PDict [(''uid'', PStr ''s1'')]),
      (''descriptor'',
         PDict [(''uid'', PStr ''d1''), (''name'', PStr ''primary''),
                (''data_keys'', PDict [(''img'', PDict [(''dtype'', PStr ''array''),
                                                       (''external'', PStr ''FILESTORE:'')])])])]
   \<and> view 3 heap1 (HRef 0) =
       PDict [(''uid'', PStr ''d1''), (''name'', PStr ''primary''),
              (''data_keys'', PDict [(''img'', PDict [(''dtype'', PStr ''array'')])])]"
  by (simp add: wrapped_f_def wrapped_step_def heap1_def config_img_def Let_def obj_at_def
      h_subscript_def h_in_def eval_nat_numeral)

end
